theory Spec2Isabelle
  imports Complex_Main "HOL-Library.AList" "HOL-Library.Log_Nat"
begin

section \<open>Game Export Utility: a shallow embedding of GameExportUtility.py\<close>

text \<open>
  The add-on is an orchestration layer over its host (Blender's \<^verbatim>\<open>bpy\<close>, \<^verbatim>\<open>mathutils\<close>
  and \<^verbatim>\<open>os\<close> modules). The embedding keeps the add-on's own control flow, its attribute
  reads and writes, its dictionaries and its exception paths as they are written, and takes
  what the host computes as a parameter: a record \<open>host\<close> of functions. Every
  \<^verbatim>\<open>bpy.ops.X(k=v, ...)\<close> of the source is \<open>call_op h ''X'' [(''k'', v), ...]\<close>.

  A coordinate is a real number, and the arithmetic of \<^verbatim>\<open>set_origin_at_bottom\<close> rounds
  as the floating-point numbers of the source do: a Python \<^verbatim>\<open>float\<close> operation to
  IEEE 754 binary64, and whatever \<^verbatim>\<open>mathutils\<close> or a mesh stores to binary32.
\<close>

subsection \<open>Floating-point numbers\<close>

text \<open>Rounding to the nearest integer, a tie to the even one.\<close>

definition rne :: "real \<Rightarrow> int" where
  "rne q =
     (let f = \<lfloor>q\<rfloor>; d = q - of_int f
      in if d < 1 / 2 then f else if 1 / 2 < d then f + 1 else if even f then f else f + 1)"

definition pow2 :: "int \<Rightarrow> real" where
  "pow2 e = (if 0 \<le> e then 2 ^ nat e else 1 / 2 ^ nat (- e))"

text \<open>A binary format with \<open>p\<close> significant bits whose smallest positive number is
  \<open>2 ^ - d\<close>. The numbers of the format next to \<open>x\<close> are the multiples of
  \<open>pow2 (ulp_exp p d x)\<close>: the exponent that leaves \<open>p\<close> bits before the point, and
  \<open>- d\<close> in the subnormal range. \<open>round_float\<close> rounds to the nearest of them, a tie to
  the even one. Overflow to an infinity is left out: the numbers stay below the largest
  finite one of the format.\<close>

definition ulp_exp :: "nat \<Rightarrow> nat \<Rightarrow> real \<Rightarrow> int" where
  "ulp_exp p d x = max (- int d) (bitlen \<lfloor>\<bar>x\<bar> * 2 ^ d\<rfloor> - int p - int d)"

definition round_float :: "nat \<Rightarrow> nat \<Rightarrow> real \<Rightarrow> real" where
  "round_float p d x = (let e = ulp_exp p d x in of_int (rne (x / pow2 e)) * pow2 e)"

text \<open>The 32-bit floats of \<^verbatim>\<open>mathutils\<close> and of mesh data, and Python's \<^verbatim>\<open>float\<close>.\<close>

definition binary32 :: "real \<Rightarrow> real" where
  "binary32 = round_float 24 149"

definition binary64 :: "real \<Rightarrow> real" where
  "binary64 = round_float 53 1074"

subsection \<open>Vectors and matrices (mathutils)\<close>

type_synonym vec = "real \<times> real \<times> real"
type_synonym row4 = "real \<times> real \<times> real \<times> real"
type_synonym mat = "row4 \<times> row4 \<times> row4 \<times> row4"

fun vx :: "vec \<Rightarrow> real" where "vx (x, y, z) = x"
fun vy :: "vec \<Rightarrow> real" where "vy (x, y, z) = y"
fun vz :: "vec \<Rightarrow> real" where "vz (x, y, z) = z"

text \<open>\<^verbatim>\<open>mathutils.Vector((x, y, z))\<close> stores the three Python floats as 32-bit floats.\<close>

fun Vector :: "vec \<Rightarrow> vec" where
  "Vector (x, y, z) = (binary32 x, binary32 y, binary32 z)"

text \<open>Unary minus of a \<^verbatim>\<open>Vector\<close>.\<close>

fun vec_neg :: "vec \<Rightarrow> vec" where
  "vec_neg (x, y, z) = (- x, - y, - z)"

text \<open>\<^verbatim>\<open>mathutils.Matrix.Translation(v)\<close>: the 4x4 identity with \<open>v\<close> in the last column.\<close>

fun Translation :: "vec \<Rightarrow> mat" where
  "Translation (x, y, z) = ((1, 0, 0, x), (0, 1, 0, y), (0, 0, 1, z), (0, 0, 0, 1))"

text \<open>\<^verbatim>\<open>M @ v\<close> for a 4x4 matrix and a 3D vector: the vector is read as \<open>(x, y, z, 1)\<close>
  and the first three components of the product are returned. \<^verbatim>\<open>mathutils\<close> takes each
  product of a row as a 32-bit float, adds the four up in a double and stores the sum as a
  32-bit float.\<close>

fun row_matmul :: "row4 \<Rightarrow> vec \<Rightarrow> real" where
  "row_matmul (a, b, c, d) (x, y, z) =
     binary32 (fold (\<lambda>p dot. binary64 (dot + p))
                 [binary32 (a * x), binary32 (b * y), binary32 (c * z), binary32 (d * 1)] 0)"

fun matmul :: "mat \<Rightarrow> vec \<Rightarrow> vec" where
  "matmul (r0, r1, r2, r3) v = (row_matmul r0 v, row_matmul r1 v, row_matmul r2 v)"

text \<open>What \<^verbatim>\<open>datablock.transform(M)\<close> does to one vertex (Blender's \<^verbatim>\<open>mul_m4_v3\<close>): the
  products and the sums of a row, from left to right, each a 32-bit float.\<close>

fun row_m4_v3 :: "row4 \<Rightarrow> vec \<Rightarrow> real" where
  "row_m4_v3 (a, b, c, d) (x, y, z) =
     binary32 (binary32 (binary32 (binary32 (a * x) + binary32 (b * y)) + binary32 (c * z)) + d)"

fun mul_m4_v3 :: "mat \<Rightarrow> vec \<Rightarrow> vec" where
  "mul_m4_v3 (r0, r1, r2, r3) v = (row_m4_v3 r0 v, row_m4_v3 r1 v, row_m4_v3 r2 v)"

text \<open>\<^verbatim>\<open>M.translation\<close>: the last column of the first three rows.\<close>

fun translation :: "mat \<Rightarrow> vec" where
  "translation ((a0, b0, c0, d0), (a1, b1, c1, d1), (a2, b2, c2, d2), r3) = (d0, d1, d2)"

subsection \<open>The document: objects, scene properties, state\<close>

datatype exn =
    AttributeError string
  | IndexError
  | ValueError
  | TypeError string
  | RuntimeError string

datatype pyval = PBool bool | PStr string

type_synonym kwargs = "(string \<times> pyval) list"

text \<open>An object of \<^verbatim>\<open>bpy.data.objects\<close>. Its name is its key in the state; \<open>data\<close> names
  its datablock (two objects may share one); \<open>parent\<close> is the link from which the host
  computes \<^verbatim>\<open>obj.children\<close>.\<close>

record bobject =
  otype :: string
  mode :: string
  data :: string
  parent :: "string option"
  matrix_world :: mat
  location :: vec
  select :: bool

datatype export_format = FBX | OBJ

fun format_id :: "export_format \<Rightarrow> string" where
  "format_id FBX = ''FBX''"
| "format_id OBJ = ''OBJ''"

text \<open>The properties on the scene (lines 24-98). \<open>selected_empty\<close> is read by the
  source but registered nowhere in it: \<open>None\<close> is a scene that has no such attribute,
  \<open>Some name\<close> one on which other code has defined it as a string.\<close>

record scene_props =
  export_types :: export_format
  batch_export :: bool
  mesh_directory_path :: string
  set_file_name :: string
  origin_at_bottom :: bool
  custom_origin :: bool
  selected_empty :: "string option"

record export_options =
  include_modifiers_fbx :: bool
  use_triangles_fbx :: bool
  use_vertex_colors_fbx :: string
  include_modifiers_obj :: bool
  use_triangles_obj :: bool

text \<open>The state the operator runs in. \<open>obj_names\<close> is \<^verbatim>\<open>bpy.data.objects\<close> in the host's
  order, \<open>meshes\<close> the vertex coordinates of each datablock, \<open>calls\<close> the trace of the
  host operators that ran, \<open>reports\<close> what \<^verbatim>\<open>self.report\<close> was given.\<close>

record bstate =
  obj_names :: "string list"
  objs :: "string \<Rightarrow> bobject"
  meshes :: "string \<Rightarrow> vec list"
  cursor_location :: vec
  active :: "string option"
  scene :: scene_props
  ExportOptions :: export_options
  filepath :: string
  calls :: "(string \<times> kwargs) list"
  reports :: "(string \<times> string) list"

text \<open>What the host provides. \<open>op_keywords\<close> are the properties an operator accepts,
  \<open>op_exec\<close> what running it does (it may raise and may change anything),
  \<open>loc_from_matrix\<close> the location the host derives for an object when its
  \<^verbatim>\<open>matrix_world\<close> is assigned.\<close>

record host =
  op_keywords :: "string \<Rightarrow> string list"
  op_exec :: "string \<Rightarrow> kwargs \<Rightarrow> bstate \<Rightarrow> (exn + unit) \<times> bstate"
  bound_box :: "bstate \<Rightarrow> string \<Rightarrow> vec list"
  loc_from_matrix :: "bstate \<Rightarrow> string \<Rightarrow> mat \<Rightarrow> vec"
  clean_name :: "string \<Rightarrow> string"
  abspath :: "string \<Rightarrow> string"
  path_join :: "string \<Rightarrow> string \<Rightarrow> string"
  path_exists :: "bstate \<Rightarrow> string \<Rightarrow> bool"
  makedirs :: "string \<Rightarrow> bstate \<Rightarrow> (exn + unit) \<times> bstate"

subsection \<open>Sequencing, loops and host calls\<close>

definition and_then ::
  "(bstate \<Rightarrow> (exn + 'a) \<times> bstate) \<Rightarrow> ('a \<Rightarrow> bstate \<Rightarrow> (exn + 'b) \<times> bstate) \<Rightarrow>
   bstate \<Rightarrow> (exn + 'b) \<times> bstate" where
  "and_then m f s = (case m s of (Inl e, s') \<Rightarrow> (Inl e, s') | (Inr x, s') \<Rightarrow> f x s')"

definition ok :: "bstate \<Rightarrow> (exn + unit) \<times> bstate" where
  "ok s = (Inr (), s)"

text \<open>\<^verbatim>\<open>for x in xs: body(x)\<close>: an exception ends the loop with the state it left.\<close>

fun for_each ::
  "('a \<Rightarrow> bstate \<Rightarrow> (exn + unit) \<times> bstate) \<Rightarrow> 'a list \<Rightarrow> bstate \<Rightarrow> (exn + unit) \<times> bstate" where
  "for_each body [] s = (Inr (), s)"
| "for_each body (x # xs) s =
     (case body x s of (Inl e, s') \<Rightarrow> (Inl e, s') | (Inr u, s') \<Rightarrow> for_each body xs s')"

text \<open>A call \<^verbatim>\<open>bpy.ops.name(**kw)\<close>. The host converts the keywords to the operator's
  properties first and raises TypeError on one it does not know, before the operator
  runs. A call that runs is appended to the trace, whatever the operator did to the
  state and however it ended.\<close>

definition call_op :: "host \<Rightarrow> string \<Rightarrow> kwargs \<Rightarrow> bstate \<Rightarrow> (exn + unit) \<times> bstate" where
  "call_op h name kw s =
     (case List.find (\<lambda>k. k \<notin> set (op_keywords h name)) (map fst kw) of
        Some k \<Rightarrow> (Inl (TypeError k), s)
      | None \<Rightarrow>
          (case op_exec h name kw s of (r, s') \<Rightarrow> (r, s'\<lparr>calls := calls s @ [(name, kw)]\<rparr>)))"

text \<open>Attribute reads and writes.\<close>

definition children :: "bstate \<Rightarrow> string \<Rightarrow> string list" where
  "children s obj = filter (\<lambda>c. parent (objs s c) = Some obj) (obj_names s)"

definition selected_objects :: "bstate \<Rightarrow> string list" where
  "selected_objects s = filter (\<lambda>n. select (objs s n)) (obj_names s)"

definition vertices :: "bstate \<Rightarrow> string \<Rightarrow> vec list" where
  "vertices s obj = meshes s (data (objs s obj))"

definition select_set :: "string \<Rightarrow> bool \<Rightarrow> bstate \<Rightarrow> bstate" where
  "select_set obj b s = s\<lparr>objs := (objs s)(obj := (objs s obj)\<lparr>select := b\<rparr>)\<rparr>"

definition set_active :: "string \<Rightarrow> bstate \<Rightarrow> bstate" where
  "set_active obj s = s\<lparr>active := Some obj\<rparr>"

definition set_cursor :: "vec \<Rightarrow> bstate \<Rightarrow> bstate" where
  "set_cursor v s = s\<lparr>cursor_location := v\<rparr>"

definition set_location :: "string \<Rightarrow> vec \<Rightarrow> bstate \<Rightarrow> bstate" where
  "set_location obj v s = s\<lparr>objs := (objs s)(obj := (objs s obj)\<lparr>location := v\<rparr>)\<rparr>"

text \<open>\<^verbatim>\<open>obj.matrix_world = M\<close> stores the matrix; the host derives the object's location
  from it.\<close>

definition set_matrix_world :: "host \<Rightarrow> string \<Rightarrow> mat \<Rightarrow> bstate \<Rightarrow> bstate" where
  "set_matrix_world h obj M s =
     s\<lparr>objs := (objs s)(obj := (objs s obj)\<lparr>matrix_world := M,
                                              location := loc_from_matrix h s obj M\<rparr>)\<rparr>"

text \<open>\<^verbatim>\<open>datablock.transform(M)\<close>: every vertex \<open>co\<close> becomes \<open>M\<close> applied to \<open>co\<close>.\<close>

definition data_transform :: "string \<Rightarrow> mat \<Rightarrow> bstate \<Rightarrow> bstate" where
  "data_transform d M s = s\<lparr>meshes := (meshes s)(d := map (mul_m4_v3 M) (meshes s d))\<rparr>"

definition report :: "string \<Rightarrow> string \<Rightarrow> bstate \<Rightarrow> bstate" where
  "report level msg s = s\<lparr>reports := reports s @ [(level, msg)]\<rparr>"

text \<open>\<^verbatim>\<open>min(xs)\<close> raises ValueError on an empty list.\<close>

fun py_min :: "real list \<Rightarrow> exn + real" where
  "py_min [] = Inl ValueError"
| "py_min (x # xs) = Inr (fold min xs x)"

text \<open>\<^verbatim>\<open>s.lower()\<close> on ASCII.\<close>

definition lower_char :: "char \<Rightarrow> char" where
  "lower_char c =
     (let n = (of_char c :: nat) in if 65 \<le> n \<and> n \<le> 90 then char_of (n + 32) else c)"

definition str_lower :: "string \<Rightarrow> string" where
  "str_lower s = map lower_char s"

subsection \<open>set_origin_at_bottom (lines 100-113)\<close>

definition set_origin_at_bottom :: "host \<Rightarrow> string \<Rightarrow> bstate \<Rightarrow> (exn + vec) \<times> bstate" where
  "set_origin_at_bottom h obj =
     and_then
       (\<lambda>s. if mode (objs s obj) \<noteq> ''OBJECT''
            then call_op h ''object.mode_set'' [(''mode'', PStr ''OBJECT'')] s
            else (Inr (), s))
       (\<lambda>u. and_then
          (call_op h ''object.transform_apply''
             [(''rotation'', PBool True), (''scale'', PBool True)])
          (\<lambda>u s.
             let bb = bound_box h s obj in
             (case py_min (map vz bb) of
                Inl e \<Rightarrow> (Inl e, s)
              | Inr min_z \<Rightarrow>
                  if length bb \<le> 6 then (Inl IndexError, s)
                  else
                    let centroid =
                          Vector (binary64 (binary64 (vx (bb ! 0) + vx (bb ! 6)) / 2),
                                  binary64 (binary64 (vy (bb ! 0) + vy (bb ! 2)) / 2),
                                  min_z);
                        world_new_origin = matmul (matrix_world (objs s obj)) centroid
                    in (Inr world_new_origin,
                        data_transform (data (objs s obj)) (Translation (vec_neg centroid)) s))))"

subsection \<open>set_origin_to_custom (lines 115-151)\<close>

text \<open>The generator handed to \<^verbatim>\<open>next(..., None)\<close>: the first child that is an EMPTY and
  passes the name test. \<^verbatim>\<open>context.scene.selected_empty\<close> is on the right of \<^verbatim>\<open>and\<close>,
  so it is read only for a child whose type is EMPTY; the read raises AttributeError on a
  scene without the attribute.\<close>

fun find_custom_empty :: "bstate \<Rightarrow> string list \<Rightarrow> exn + string option" where
  "find_custom_empty s [] = Inr None"
| "find_custom_empty s (child # rest) =
     (if otype (objs s child) = ''EMPTY'' then
        (case selected_empty (scene s) of
           None \<Rightarrow> Inl (AttributeError ''selected_empty'')
         | Some se \<Rightarrow>
             if se = [] \<or> child = se then Inr (Some child) else find_custom_empty s rest)
      else find_custom_empty s rest)"

definition process_obj :: "host \<Rightarrow> string \<Rightarrow> bstate \<Rightarrow> (exn + unit) \<times> bstate" where
  "process_obj h obj s =
     (if otype (objs s obj) \<noteq> ''MESH'' then (Inr (), s)
      else
        (case find_custom_empty s (children s obj) of
           Inl e \<Rightarrow> (Inl e, s)
         | Inr None \<Rightarrow> (Inr (), s)
         | Inr (Some custom_empty) \<Rightarrow>
             and_then
               (call_op h ''object.select_all'' [(''action'', PStr ''DESELECT'')])
               (\<lambda>u s1.
                  call_op h ''object.origin_set''
                    [(''type'', PStr ''ORIGIN_CURSOR''), (''center'', PStr ''MEDIAN'')]
                    (set_active obj (select_set obj True s1)))
               (set_cursor (translation (matrix_world (objs s custom_empty))) s)))"

text \<open>The argument of \<^verbatim>\<open>set_origin_to_custom\<close> is a list (or tuple) of objects or one
  object (the \<^verbatim>\<open>isinstance\<close> test).\<close>

datatype objects_arg = Single string | Many "string list"

definition process_objects :: "host \<Rightarrow> objects_arg \<Rightarrow> bstate \<Rightarrow> (exn + unit) \<times> bstate" where
  "process_objects h selected =
     (case selected of
        Many xs \<Rightarrow> for_each (process_obj h) xs
      | Single x \<Rightarrow> process_obj h x)"

text \<open>Lines 139-144 and, once more, lines 146-151.\<close>

definition set_origin_to_custom :: "host \<Rightarrow> objects_arg \<Rightarrow> bstate \<Rightarrow> (exn + unit) \<times> bstate" where
  "set_origin_to_custom h selected =
     and_then (process_objects h selected) (\<lambda>u. process_objects h selected)"

subsection \<open>export_objects (lines 176-201)\<close>

definition fbx_kwargs :: "string \<Rightarrow> bool \<Rightarrow> bool \<Rightarrow> string \<Rightarrow> kwargs" where
  "fbx_kwargs path use_modifiers use_triangulation use_vertex_colors =
     [(''filepath'', PStr path), (''use_selection'', PBool True),
      (''use_mesh_modifiers'', PBool use_modifiers), (''use_triangles'', PBool use_triangulation),
      (''colors_type'', PStr use_vertex_colors)]"

definition export_one ::
  "host \<Rightarrow> export_format \<Rightarrow> string \<Rightarrow> bool \<Rightarrow> bool \<Rightarrow> string \<Rightarrow> string \<Rightarrow>
   bstate \<Rightarrow> (exn + unit) \<times> bstate" where
  "export_one h export_format directory use_modifiers use_triangulation
     use_vertex_colors selected_obj s =
     (let s1 = set_active selected_obj s in
      and_then
        (call_op h ''object.select_all'' [(''action'', PStr ''DESELECT'')])
        (\<lambda>u s2.
           let s3 = select_set selected_obj True s2;
               object_file_name =
                 clean_name h selected_obj @ ''.'' @ str_lower (format_id export_format);
               object_filepath = path_join h directory object_file_name
           in (case export_format of
                 FBX \<Rightarrow>
                   call_op h ''export_scene.fbx''
                     (fbx_kwargs object_filepath use_modifiers use_triangulation use_vertex_colors)
                     s3
               | OBJ \<Rightarrow>
                   call_op h ''wm.obj_export''
                     [(''filepath'', PStr object_filepath),
                      (''export_selected_objects'', PBool True),
                      (''apply_modifiers'', PBool True),
                      (''export_triangulated_mesh'', PBool True)]
                     s3))
        s1)"

definition export_objects ::
  "host \<Rightarrow> string list \<Rightarrow> export_format \<Rightarrow> string \<Rightarrow> bool \<Rightarrow> bool \<Rightarrow> string \<Rightarrow>
   bstate \<Rightarrow> (exn + unit) \<times> bstate" where
  "export_objects h selected_objs export_format directory use_modifiers
     use_triangulation use_vertex_colors =
     for_each
       (export_one h export_format directory use_modifiers use_triangulation
          use_vertex_colors)
       selected_objs"

subsection \<open>OBJECT_OT_ExportOperator.execute (lines 208-306)\<close>

text \<open>The three dictionaries of lines 219-221, in insertion order.\<close>

record snapshot =
  original_matrices :: "(string \<times> mat) list"
  original_vertices :: "(string \<times> vec list) list"
  original_empty_transforms :: "(string \<times> mat) list"

definition empty_snapshot :: snapshot where
  "empty_snapshot =
     \<lparr>original_matrices = [], original_vertices = [], original_empty_transforms = []\<rparr>"

text \<open>Lines 227-229, for one child.\<close>

definition store_child :: "bstate \<Rightarrow> string \<Rightarrow> snapshot \<Rightarrow> snapshot" where
  "store_child s child snap =
     (if otype (objs s child) = ''EMPTY''
      then snap\<lparr>original_empty_transforms :=
             AList.update child (matrix_world (objs s child)) (original_empty_transforms snap)\<rparr>
      else snap)"

text \<open>Lines 223-229, for one selected object.\<close>

definition store_object :: "bstate \<Rightarrow> string \<Rightarrow> snapshot \<Rightarrow> snapshot" where
  "store_object s obj snap =
     fold (store_child s) (children s obj)
       (if otype (objs s obj) = ''MESH''
        then snap\<lparr>original_matrices :=
                    AList.update obj (matrix_world (objs s obj)) (original_matrices snap),
                  original_vertices :=
                    AList.update obj (vertices s obj) (original_vertices snap)\<rparr>
        else snap)"

definition store_original_state :: "bstate \<Rightarrow> string list \<Rightarrow> snapshot" where
  "store_original_state s selected = fold (store_object s) selected empty_snapshot"

text \<open>The default policy, lines 239-244, for one object.\<close>

definition cursor_at_object :: "host \<Rightarrow> string \<Rightarrow> bstate \<Rightarrow> (exn + unit) \<times> bstate" where
  "cursor_at_object h obj s =
     and_then
       (call_op h ''object.select_all'' [(''action'', PStr ''DESELECT'')])
       (\<lambda>u s1.
          call_op h ''object.origin_set''
            [(''type'', PStr ''ORIGIN_CURSOR''), (''center'', PStr ''MEDIAN'')]
            (set_active obj (select_set obj True s1)))
       (set_cursor (location (objs s obj)) s)"

text \<open>Lines 236-237: the value \<^verbatim>\<open>set_origin_at_bottom\<close> returns is dropped.\<close>

definition at_bottom :: "host \<Rightarrow> string \<Rightarrow> bstate \<Rightarrow> (exn + unit) \<times> bstate" where
  "at_bottom h obj = and_then (set_origin_at_bottom h obj) (\<lambda>world_new_origin. ok)"

text \<open>Lines 233-244.\<close>

definition origin_handling :: "host \<Rightarrow> string list \<Rightarrow> bstate \<Rightarrow> (exn + unit) \<times> bstate" where
  "origin_handling h selected s =
     (if custom_origin (scene s) then set_origin_to_custom h (Many selected) s
      else if origin_at_bottom (scene s) then for_each (at_bottom h) selected s
      else for_each (cursor_at_object h) selected s)"

text \<open>Lines 247-248.\<close>

definition move_to_origin :: "string list \<Rightarrow> bstate \<Rightarrow> bstate" where
  "move_to_origin selected s = fold (\<lambda>obj. set_location obj (0, 0, 0)) selected s"

text \<open>Lines 265-287, the export of the whole selection to one file. The name of the
  active object is read only when \<open>set_file_name\<close> is empty (\<^verbatim>\<open>or\<close>), and reading it
  raises AttributeError when there is no active object. The keyword
  \<^verbatim>\<open>export_trianguled_mesh\<close> of line 286 is the source's.\<close>

definition export_selection ::
  "host \<Rightarrow> string list \<Rightarrow> export_format \<Rightarrow> string \<Rightarrow> bool \<Rightarrow> bool \<Rightarrow> string \<Rightarrow>
   bstate \<Rightarrow> (exn + unit) \<times> bstate" where
  "export_selection h selected export_format directory use_modifiers use_triangulation
     use_vertex_colors =
     and_then
       (call_op h ''object.select_all'' [(''action'', PStr ''DESELECT'')])
       (\<lambda>u s1.
          let s2 = fold (\<lambda>obj. select_set obj True) selected s1 in
          (case (if set_file_name (scene s2) \<noteq> [] then Inr (set_file_name (scene s2))
                 else (case active s2 of
                         None \<Rightarrow> Inl (AttributeError ''name'')
                       | Some active_object \<Rightarrow> Inr active_object)) of
             Inl e \<Rightarrow> (Inl e, s2)
           | Inr base \<Rightarrow>
               let file_base_name = clean_name h base;
                   file_name = file_base_name @ ''.'' @ str_lower (format_id export_format);
                   path = path_join h directory file_name
               in (case export_format of
                     FBX \<Rightarrow>
                       call_op h ''export_scene.fbx''
                         (fbx_kwargs path use_modifiers use_triangulation use_vertex_colors) s2
                   | OBJ \<Rightarrow>
                       call_op h ''wm.obj_export''
                         [(''filepath'', PStr path),
                          (''export_selected_objects'', PBool True),
                          (''apply_modifiers'', PBool True),
                          (''export_trianguled_mesh'', PBool True)]
                         s2)))"

text \<open>Lines 251-287.\<close>

definition export_phase :: "host \<Rightarrow> string list \<Rightarrow> bstate \<Rightarrow> (exn + unit) \<times> bstate" where
  "export_phase h selected s =
     (let use_modifiers = include_modifiers_fbx (ExportOptions s);
          use_triangulation = use_triangles_fbx (ExportOptions s);
          use_vertex_colors = use_vertex_colors_fbx (ExportOptions s);
          export_format = export_types (scene s);
          directory = abspath h (mesh_directory_path (scene s))
      in and_then
           (\<lambda>s. if \<not> path_exists h s directory then makedirs h directory s else (Inr (), s))
           (\<lambda>u s1.
              if batch_export (scene s1)
              then export_objects h selected export_format directory use_modifiers
                     use_triangulation use_vertex_colors s1
              else export_selection h selected export_format directory use_modifiers
                     use_triangulation use_vertex_colors s1)
           s)"

text \<open>The body of \<^verbatim>\<open>try\<close>, lines 232-287.\<close>

definition try_body :: "host \<Rightarrow> string list \<Rightarrow> bstate \<Rightarrow> (exn + unit) \<times> bstate" where
  "try_body h selected =
     and_then (origin_handling h selected)
       (\<lambda>u s1. export_phase h selected (move_to_origin selected s1))"

text \<open>Lines 293-294: \<^verbatim>\<open>v.co = original[i]\<close> for every vertex the mesh has now. With
  more vertices than were stored, the stored ones are written and the next index raises
  IndexError.\<close>

definition restore_vertices :: "vec list \<Rightarrow> vec list \<Rightarrow> exn + vec list" where
  "restore_vertices current original =
     (if length original < length current then Inl IndexError
      else Inr (take (length current) original))"

text \<open>Lines 292-297, for one selected object.\<close>

definition restore_object :: "host \<Rightarrow> snapshot \<Rightarrow> string \<Rightarrow> bstate \<Rightarrow> (exn + unit) \<times> bstate" where
  "restore_object h snap obj =
     and_then
       (\<lambda>s. case map_of (original_vertices snap) obj of
              None \<Rightarrow> (Inr (), s)
            | Some original \<Rightarrow>
                if otype (objs s obj) \<noteq> ''MESH'' then (Inr (), s)
                else
                  (case restore_vertices (vertices s obj) original of
                     Inl e \<Rightarrow>
                       (Inl e,
                        s\<lparr>meshes := (meshes s)(data (objs s obj) :=
                             original @ drop (length original) (vertices s obj))\<rparr>)
                   | Inr vs \<Rightarrow> (Inr (), s\<lparr>meshes := (meshes s)(data (objs s obj) := vs)\<rparr>)))
       (\<lambda>u s. case map_of (original_matrices snap) obj of
                None \<Rightarrow> (Inr (), s)
              | Some M \<Rightarrow> (Inr (), set_matrix_world h obj M s))"

text \<open>Lines 299-302, for one item of \<open>original_empty_transforms\<close>.\<close>

definition restore_empty :: "host \<Rightarrow> string \<times> mat \<Rightarrow> bstate \<Rightarrow> bstate" where
  "restore_empty h item s =
     (case item of (empty_name, M) \<Rightarrow>
        if empty_name \<in> set (obj_names s) then set_matrix_world h empty_name M s else s)"

text \<open>The body of \<^verbatim>\<open>finally\<close>, lines 290-304.\<close>

definition finally_block ::
  "host \<Rightarrow> snapshot \<Rightarrow> string list \<Rightarrow> bstate \<Rightarrow> (exn + unit) \<times> bstate" where
  "finally_block h snap selected =
     and_then (for_each (restore_object h snap) selected)
       (\<lambda>u s. call_op h ''view3d.snap_cursor_to_center'' []
                (fold (restore_empty h) (original_empty_transforms snap) s))"

datatype op_result = FINISHED | CANCELLED

text \<open>\<^verbatim>\<open>execute\<close>. An exception of the \<^verbatim>\<open>try\<close> body propagates after the
  \<^verbatim>\<open>finally\<close> body has run; one raised by the \<^verbatim>\<open>finally\<close> body itself replaces it.\<close>

definition execute :: "host \<Rightarrow> bstate \<Rightarrow> (exn + op_result) \<times> bstate" where
  "execute h s =
     and_then
       (call_op h ''wm.save_as_mainfile'' [(''filepath'', PStr (filepath s))])
       (\<lambda>u s1.
          let selected = filter (\<lambda>obj. otype (objs s1 obj) \<noteq> ''EMPTY'') (selected_objects s1) in
          if selected = []
          then (Inr CANCELLED, report ''ERROR'' ''No valid mesh objects to export.'' s1)
          else
            let snap = store_original_state s1 selected in
            (case try_body h selected s1 of
               (r, s2) \<Rightarrow>
                 (case finally_block h snap selected s2 of
                    (Inl e, s3) \<Rightarrow> (Inl e, s3)
                  | (Inr u, s3) \<Rightarrow>
                      (case r of Inl e \<Rightarrow> (Inl e, s3) | Inr u \<Rightarrow> (Inr FINISHED, s3)))))
       s"

section \<open>Notions the properties are stated with\<close>

subsection \<open>The origin policies of the specification\<close>

text \<open>The specification names three policies and selects one by the two flags, with the
  precedence CustomEmptyAnchor, then AtBottomCenter, then CursorAtObject (the default,
  always available). \<open>active_policy\<close> follows these words; \<open>apply_policy\<close> is what the
  source does under each.\<close>

datatype origin_policy = CursorAtObject | AtBottomCenter | CustomEmptyAnchor

fun enabled :: "scene_props \<Rightarrow> origin_policy \<Rightarrow> bool" where
  "enabled p CustomEmptyAnchor = custom_origin p"
| "enabled p AtBottomCenter = origin_at_bottom p"
| "enabled p CursorAtObject = True"

definition active_policy :: "scene_props \<Rightarrow> origin_policy" where
  "active_policy p = hd (filter (enabled p) [CustomEmptyAnchor, AtBottomCenter, CursorAtObject])"

fun apply_policy ::
  "host \<Rightarrow> origin_policy \<Rightarrow> string list \<Rightarrow> bstate \<Rightarrow> (exn + unit) \<times> bstate" where
  "apply_policy h CustomEmptyAnchor selected = set_origin_to_custom h (Many selected)"
| "apply_policy h AtBottomCenter selected = for_each (at_bottom h) selected"
| "apply_policy h CursorAtObject selected = for_each (cursor_at_object h) selected"

subsection \<open>The axis-aligned bounding box\<close>

text \<open>What the host documents for \<^verbatim>\<open>obj.bound_box\<close> of an object with at least one
  vertex: the eight corners of the axis-aligned box of its vertices in local space, in
  the host's corner order (corner 0 is the minimum in x, y and z, corner 6 the maximum,
  corner 2 has the maximum in y).\<close>

definition minimum :: "real list \<Rightarrow> real" where
  "minimum xs = fold min (tl xs) (hd xs)"

definition maximum :: "real list \<Rightarrow> real" where
  "maximum xs = fold max (tl xs) (hd xs)"

definition box_corners :: "vec \<Rightarrow> vec \<Rightarrow> vec list" where
  "box_corners lo hi =
     [(vx lo, vy lo, vz lo), (vx lo, vy lo, vz hi), (vx lo, vy hi, vz hi), (vx lo, vy hi, vz lo),
      (vx hi, vy lo, vz lo), (vx hi, vy lo, vz hi), (vx hi, vy hi, vz hi), (vx hi, vy hi, vz lo)]"

definition bbox_of :: "vec list \<Rightarrow> vec list" where
  "bbox_of vs =
     box_corners (minimum (map vx vs), minimum (map vy vs), minimum (map vz vs))
                 (maximum (map vx vs), maximum (map vy vs), maximum (map vz vs))"

text \<open>The point \<^verbatim>\<open>set_origin_at_bottom\<close> moves the origin to, read off a list of vertices:
  the horizontal centre of their box and their lowest z.\<close>

definition bottom_center :: "vec list \<Rightarrow> vec" where
  "bottom_center vs =
     ((minimum (map vx vs) + maximum (map vx vs)) / 2,
      (minimum (map vy vs) + maximum (map vy vs)) / 2,
      minimum (map vz vs))"

fun vec_sub :: "vec \<Rightarrow> vec \<Rightarrow> vec" where
  "vec_sub (x, y, z) (a, b, c) = (x - a, y - b, z - c)"

text \<open>The same point as line 107 computes it from the corners of that box: the sum and
  the halving are Python \<^verbatim>\<open>float\<close> operations, and the \<^verbatim>\<open>Vector\<close> stores 32-bit
  floats.\<close>

definition float_bottom_center :: "vec list \<Rightarrow> vec" where
  "float_bottom_center vs =
     Vector (binary64 (binary64 (minimum (map vx vs) + maximum (map vx vs)) / 2),
             binary64 (binary64 (minimum (map vy vs) + maximum (map vy vs)) / 2),
             minimum (map vz vs))"

text \<open>A vertex whose coordinates are 32-bit floats, as mesh data stores them.\<close>

definition is_float32 :: "vec \<Rightarrow> bool" where
  "is_float32 v \<longleftrightarrow> Vector v = v"

subsection \<open>What the export body must leave in place for the restore to apply\<close>

text \<open>The restore phase reads the objects as the \<^verbatim>\<open>try\<close> body left them. \<open>same_shape\<close>
  says that since the snapshot every snapshotted mesh is still a mesh on the same
  datablock with as many vertices, and every snapshotted child empty is still in
  \<^verbatim>\<open>bpy.data.objects\<close>. None of the host operators the add-on calls adds or removes
  vertices or objects.\<close>

definition same_shape :: "string list \<Rightarrow> bstate \<Rightarrow> bstate \<Rightarrow> bool" where
  "same_shape selected s1 s2 \<longleftrightarrow>
     (\<forall>obj \<in> set selected. otype (objs s1 obj) = ''MESH'' \<longrightarrow>
        otype (objs s2 obj) = ''MESH'' \<and> data (objs s2 obj) = data (objs s1 obj) \<and>
        length (vertices s2 obj) = length (vertices s1 obj)) \<and>
     (\<forall>obj \<in> set selected. \<forall>child \<in> set (children s1 obj).
        otype (objs s1 child) = ''EMPTY'' \<longrightarrow> child \<in> set (obj_names s2))"

text \<open>For the proof that the restore phase restores: a snapshotted mesh the restore can
  be applied to, a mesh that is back at its snapshot, the invariant of the restore loop
  and what it has achieved for an object, and what an entry of the empties' dictionary
  holds.\<close>

definition mesh_kept :: "bstate \<Rightarrow> bstate \<Rightarrow> string \<Rightarrow> bool" where
  "mesh_kept s1 t obj \<longleftrightarrow>
     otype (objs t obj) = ''MESH'' \<and> data (objs t obj) = data (objs s1 obj) \<and>
     length (vertices t obj) = length (vertices s1 obj)"

definition mesh_restored :: "bstate \<Rightarrow> bstate \<Rightarrow> string \<Rightarrow> bool" where
  "mesh_restored s1 t obj \<longleftrightarrow>
     vertices t obj = vertices s1 obj \<and> matrix_world (objs t obj) = matrix_world (objs s1 obj)"

definition restore_inv :: "bstate \<Rightarrow> string list \<Rightarrow> string list \<Rightarrow> bstate \<Rightarrow> bool" where
  "restore_inv s1 names sel t \<longleftrightarrow>
     obj_names t = names \<and>
     (\<forall>obj \<in> set sel. otype (objs s1 obj) = ''MESH'' \<longrightarrow> mesh_kept s1 t obj)"

definition restore_done :: "bstate \<Rightarrow> string list \<Rightarrow> string \<Rightarrow> bstate \<Rightarrow> bool" where
  "restore_done s1 sel y t \<longleftrightarrow>
     (y \<in> set sel \<longrightarrow> otype (objs s1 y) = ''MESH'' \<longrightarrow> mesh_restored s1 t y)"

definition empty_entry :: "bstate \<Rightarrow> string list \<Rightarrow> string \<times> mat \<Rightarrow> bool" where
  "empty_entry s xs p \<longleftrightarrow>
     otype (objs s (fst p)) = ''EMPTY'' \<and> snd p = matrix_world (objs s (fst p)) \<and>
     (\<exists>obj \<in> set xs. fst p \<in> set (children s obj))"

subsection \<open>What the host's origin-set is taken to do\<close>

text \<open>\<^verbatim>\<open>select_all(action='DESELECT')\<close> clears the selection flag of every object.\<close>

definition deselect_all :: "bstate \<Rightarrow> bstate" where
  "deselect_all s = s\<lparr>objs := (\<lambda>n. (objs s n)\<lparr>select := False\<rparr>)\<rparr>"












text \<open>The objects for which the marker lookup of \<^verbatim>\<open>process_obj\<close> reaches the read of
  \<^verbatim>\<open>context.scene.selected_empty\<close>: the meshes with a child of type EMPTY.\<close>

definition reads_marker_name :: "bstate \<Rightarrow> string \<Rightarrow> bool" where
  "reads_marker_name s obj \<longleftrightarrow>
     otype (objs s obj) = ''MESH'' \<and> list_ex (\<lambda>c. otype (objs s c) = ''EMPTY'') (children s obj)"

text \<open>The exporter calls of a trace.\<close>

definition is_export :: "string \<times> kwargs \<Rightarrow> bool" where
  "is_export c \<longleftrightarrow> fst c = ''export_scene.fbx'' \<or> fst c = ''wm.obj_export''"

definition exports :: "bstate \<Rightarrow> (string \<times> kwargs) list" where
  "exports s = filter is_export (calls s)"

text \<open>The file an exporter call writes: its \<^verbatim>\<open>filepath\<close> argument.\<close>

definition filepath_of :: "string \<times> kwargs \<Rightarrow> string" where
  "filepath_of c = (case map_of (snd c) ''filepath'' of Some (PStr path) \<Rightarrow> path | _ \<Rightarrow> [])"

text \<open>The file name the specification gives an export: the sanitized base name, a dot
  and the format's name in lower case, in the output directory.\<close>

definition export_file :: "host \<Rightarrow> export_format \<Rightarrow> string \<Rightarrow> string \<Rightarrow> string" where
  "export_file h fmt directory base =
     path_join h directory (clean_name h base @ ''.'' @ str_lower (format_id fmt))"

section \<open>A concrete host and concrete documents\<close>

text \<open>A small host on which the functions above can be run: it knows the keywords the
  host documents for the operators the add-on calls, deselects on
  \<^verbatim>\<open>select_all\<close>, recentres the cursor on \<^verbatim>\<open>snap_cursor_to_center\<close>, and moves
  the origin of the active object to the cursor on \<^verbatim>\<open>origin_set\<close> (for objects that
  are neither rotated nor scaled). Exporters, save, mode_set and transform_apply leave the
  document as it is. The \<^verbatim>\<open>bound_box\<close> of an object is the box of its vertices, and
  the host's default box from (-1, -1, -1) to (1, 1, 1) when it has no vertex.\<close>

definition demo_keywords :: "string \<Rightarrow> string list" where
  "demo_keywords name =
     (if name = ''wm.save_as_mainfile'' then [''filepath'', ''check_existing'', ''copy'']
      else if name = ''object.select_all'' then [''action'']
      else if name = ''object.origin_set'' then [''type'', ''center'']
      else if name = ''object.mode_set'' then [''mode'', ''toggle'']
      else if name = ''object.transform_apply''
        then [''location'', ''rotation'', ''scale'', ''properties'', ''isolate_users'']
      else if name = ''export_scene.fbx''
        then [''filepath'', ''use_selection'', ''use_mesh_modifiers'', ''use_triangles'',
              ''colors_type'', ''global_scale'', ''object_types'']
      else if name = ''wm.obj_export''
        then [''filepath'', ''export_selected_objects'', ''apply_modifiers'',
              ''export_triangulated_mesh'', ''export_uv'', ''export_normals'',
              ''export_materials'', ''global_scale'']
      else [])"

text \<open>The demo host's origin-set translates the vertices exactly.\<close>

fun row_dot :: "row4 \<Rightarrow> vec \<Rightarrow> real" where
  "row_dot (a, b, c, d) (x, y, z) = a * x + b * y + c * z + d"

fun mat_vec :: "mat \<Rightarrow> vec \<Rightarrow> vec" where
  "mat_vec (r0, r1, r2, r3) v = (row_dot r0 v, row_dot r1 v, row_dot r2 v)"

fun with_translation :: "mat \<Rightarrow> vec \<Rightarrow> mat" where
  "with_translation ((a0, b0, c0, d0), (a1, b1, c1, d1), (a2, b2, c2, d2), r3) (x, y, z) =
     ((a0, b0, c0, x), (a1, b1, c1, y), (a2, b2, c2, z), r3)"

definition demo_origin_set :: "bstate \<Rightarrow> bstate" where
  "demo_origin_set s =
     (case active s of
        None \<Rightarrow> s
      | Some a \<Rightarrow>
          let d = vec_sub (translation (matrix_world (objs s a))) (cursor_location s) in
          s\<lparr>meshes := (meshes s)(data (objs s a) := map (mat_vec (Translation d)) (vertices s a)),
            objs := (objs s)(a := (objs s a)
              \<lparr>matrix_world := with_translation (matrix_world (objs s a)) (cursor_location s),
               location := vec_sub (location (objs s a)) d\<rparr>)\<rparr>)"

definition demo_exec :: "string \<Rightarrow> kwargs \<Rightarrow> bstate \<Rightarrow> (exn + unit) \<times> bstate" where
  "demo_exec name kw s =
     (if name = ''object.select_all'' then (Inr (), deselect_all s)
      else if name = ''view3d.snap_cursor_to_center'' then (Inr (), s\<lparr>cursor_location := (0, 0, 0)\<rparr>)
      else if name = ''object.origin_set'' then (Inr (), demo_origin_set s)
      else (Inr (), s))"

definition demo_clean_name :: "string \<Rightarrow> string" where
  "demo_clean_name name = map (\<lambda>c. if c = CHR '' '' \<or> c = CHR ''.'' then CHR ''_'' else c) name"

definition demo_host :: host where
  "demo_host =
     \<lparr>op_keywords = demo_keywords,
      op_exec = demo_exec,
      bound_box = (\<lambda>s obj. if vertices s obj = [] then box_corners (-1, -1, -1) (1, 1, 1)
                            else bbox_of (vertices s obj)),
      loc_from_matrix = (\<lambda>s obj M. translation M),
      clean_name = demo_clean_name,
      abspath = (\<lambda>p. p),
      path_join = (\<lambda>d f. d @ ''/'' @ f),
      path_exists = (\<lambda>s p. True),
      makedirs = (\<lambda>p s. (Inr (), s))\<rparr>"

definition blank :: bobject where
  "blank =
     \<lparr>otype = ''EMPTY'', mode = ''OBJECT'', data = [], parent = None,
      matrix_world = Translation (0, 0, 0), location = (0, 0, 0), select = False\<rparr>"

definition mesh_at :: "string \<Rightarrow> vec \<Rightarrow> bobject" where
  "mesh_at d v = blank\<lparr>otype := ''MESH'', data := d, matrix_world := Translation v,
                        location := v, select := True\<rparr>"

definition default_props :: scene_props where
  "default_props =
     \<lparr>export_types = FBX, batch_export = False, mesh_directory_path = ''out'',
      set_file_name = [], origin_at_bottom = False, custom_origin = False,
      selected_empty = None\<rparr>"

definition default_options :: export_options where
  "default_options =
     \<lparr>include_modifiers_fbx = False, use_triangles_fbx = False,
      use_vertex_colors_fbx = ''NONE'', include_modifiers_obj = False,
      use_triangles_obj = False\<rparr>"

text \<open>A document as the add-on registers its properties (no \<open>selected_empty\<close>): a
  selected mesh Cube with a child empty Anchor, and a selected curve Path.\<close>

definition demo_doc :: bstate where
  "demo_doc =
     \<lparr>obj_names = [''Cube'', ''Anchor'', ''Path''],
      objs = (\<lambda>n. blank)
        (''Cube'' := mesh_at ''CubeMesh'' (1, 2, 3),
         ''Anchor'' := blank\<lparr>parent := Some ''Cube'', matrix_world := Translation (5, 5, 5),
                              location := (4, 3, 2)\<rparr>,
         ''Path'' := blank\<lparr>otype := ''CURVE'', data := ''PathCurve'',
                            matrix_world := Translation (7, 8, 9), location := (7, 8, 9),
                            select := True\<rparr>),
      meshes = (\<lambda>d. [])(''CubeMesh'' := [(0, 0, 0), (2, 4, 6)]),
      cursor_location = (9, 9, 9),
      active = Some ''Cube'',
      scene = default_props,
      ExportOptions = default_options,
      filepath = ''game.blend'',
      calls = [],
      reports = []\<rparr>"

text \<open>Only the mesh Cube is selected (and Anchor is its child).\<close>

definition cube_doc :: bstate where
  "cube_doc = select_set ''Path'' False demo_doc"

text \<open>Only the empty Anchor is selected.\<close>

definition marker_doc :: bstate where
  "marker_doc = select_set ''Anchor'' True (select_set ''Path'' False (select_set ''Cube'' False demo_doc))"

text \<open>A mesh with no child, selected alone.\<close>

definition lone_doc :: bstate where
  "lone_doc =
     demo_doc\<lparr>obj_names := [''Rock''],
              objs := (\<lambda>n. blank)(''Rock'' := mesh_at ''RockMesh'' (1, 2, 3)),
              meshes := (\<lambda>d. [])(''RockMesh'' := [(0, 0, 0), (2, 4, 6)]),
              active := Some ''Rock''\<rparr>"

text \<open>Rock with two vertices whose x coordinates are the 32-bit floats nearest to 0.1
  and to 0.7; and Rock with no vertex at all.\<close>

definition chip_vertices :: "vec list" where
  "chip_vertices = [(13421773 / 2 ^ 27, 0, 0), (11744051 / 2 ^ 24, 1, 2)]"

definition chip_doc :: bstate where
  "chip_doc = lone_doc\<lparr>meshes := (\<lambda>d. [])(''RockMesh'' := chip_vertices)\<rparr>"

definition bare_doc :: bstate where
  "bare_doc = lone_doc\<lparr>meshes := (\<lambda>d. [])\<rparr>"

text \<open>Cube selected alone, with the bottom-centre policy; the same with the OBJ format;
  and the same with the OBJ format in batch mode.\<close>

definition cube_bottom_doc :: bstate where
  "cube_bottom_doc = cube_doc\<lparr>scene := default_props\<lparr>origin_at_bottom := True\<rparr>\<rparr>"

definition cube_obj_doc :: bstate where
  "cube_obj_doc =
     cube_doc\<lparr>scene := default_props\<lparr>export_types := OBJ, origin_at_bottom := True\<rparr>\<rparr>"

definition cube_obj_batch_doc :: bstate where
  "cube_obj_batch_doc =
     cube_doc\<lparr>scene := default_props\<lparr>export_types := OBJ, batch_export := True,
                                       origin_at_bottom := True\<rparr>\<rparr>"

text \<open>The custom-origin document of Cube on a scene where other code has defined
  \<open>selected_empty\<close>, as the name of the marker.\<close>

definition cube_marker_doc :: bstate where
  "cube_marker_doc =
     cube_doc\<lparr>scene := default_props\<lparr>custom_origin := True, selected_empty := Some ''Anchor''\<rparr>\<rparr>"

text \<open>Cube and Path selected, in batch mode.\<close>

definition batch_doc :: bstate where
  "batch_doc = demo_doc\<lparr>scene := default_props\<lparr>batch_export := True\<rparr>\<rparr>"

text \<open>The same documents with the custom-origin flag set.\<close>

definition lone_custom_doc :: bstate where
  "lone_custom_doc = lone_doc\<lparr>scene := default_props\<lparr>custom_origin := True\<rparr>\<rparr>"

definition cube_custom_doc :: bstate where
  "cube_custom_doc = cube_doc\<lparr>scene := default_props\<lparr>custom_origin := True\<rparr>\<rparr>"

section \<open>Basic facts\<close>

lemma and_then_Inr: "m s = (Inr x, s') \<Longrightarrow> and_then m f s = f x s'"
  by (simp add: and_then_def)

lemma and_then_Inl: "m s = (Inl e, s') \<Longrightarrow> and_then m f s = (Inl e, s')"
  by (simp add: and_then_def)

lemmas run_defs =
  execute_def and_then_def call_op_def ok_def report_def
  selected_objects_def children_def vertices_def
  select_set_def set_active_def set_cursor_def set_location_def set_matrix_world_def
  data_transform_def
  store_original_state_def store_object_def store_child_def empty_snapshot_def
  try_body_def origin_handling_def set_origin_to_custom_def process_objects_def process_obj_def
  cursor_at_object_def at_bottom_def set_origin_at_bottom_def move_to_origin_def
  export_phase_def export_objects_def export_one_def export_selection_def fbx_kwargs_def
  finally_block_def restore_object_def restore_empty_def restore_vertices_def

lemmas demo_defs =
  demo_host_def demo_keywords_def demo_exec_def demo_origin_set_def deselect_all_def
  demo_clean_name_def blank_def mesh_at_def default_props_def default_options_def
  demo_doc_def cube_doc_def marker_doc_def lone_doc_def
  lone_custom_doc_def cube_custom_doc_def
  cube_bottom_doc_def cube_obj_doc_def cube_obj_batch_doc_def batch_doc_def cube_marker_doc_def
  bbox_of_def box_corners_def minimum_def maximum_def

lemma str_lower_FBX: "str_lower ''FBX'' = ''fbx''"
  by code_simp

lemma str_lower_OBJ: "str_lower ''OBJ'' = ''obj''"
  by code_simp

subsection \<open>Rounding\<close>

lemma rne_of_int: "rne (of_int n) = n"
  by (simp add: rne_def)

lemma rne_nonneg: "0 \<le> q \<Longrightarrow> 0 \<le> rne q"
  by (simp add: rne_def Let_def)

lemma pow2_pos: "0 < pow2 e"
  by (simp add: pow2_def)

lemma pow2_powi: "pow2 e = 2 powi e"
  by (simp add: pow2_def power_int_def field_simps)

lemma pow2_add: "pow2 (a + b) = pow2 a * pow2 b"
  by (simp add: pow2_powi power_int_add)

lemma pow2_nat: "0 \<le> e \<Longrightarrow> pow2 e = of_int (2 ^ nat e)"
  by (simp add: pow2_def)

lemma round_float_0: "round_float p d 0 = 0"
  by (simp add: round_float_def Let_def rne_def)

lemma round_float_nonneg: "0 \<le> x \<Longrightarrow> 0 \<le> round_float p d x"
  using rne_nonneg [of "x / pow2 (ulp_exp p d x)"] pow2_pos [of "ulp_exp p d x"]
  by (simp add: round_float_def Let_def)

text \<open>A number with at most \<open>p\<close> significant bits and an exponent in range is a number
  of the format: rounding leaves it as it is.\<close>

lemma ulp_exp_exact:
  assumes m: "\<bar>m\<bar> < 2 ^ p" and e: "- int d \<le> e"
  shows "ulp_exp p d (of_int m * pow2 e) \<le> e"
proof -
  define k where "k = nat (e + int d)"
  have ek: "e + int d = int k" using e by (simp add: k_def)
  have "pow2 e * 2 ^ d = pow2 e * pow2 (int d)" by (simp add: pow2_def)
  also have "\<dots> = pow2 (e + int d)" by (simp add: pow2_add)
  also have "\<dots> = 2 ^ k" unfolding ek by (simp add: pow2_def)
  finally have sc: "pow2 e * 2 ^ d = 2 ^ k" .
  have "\<bar>of_int m * pow2 e\<bar> * 2 ^ d = of_int \<bar>m\<bar> * (pow2 e * 2 ^ d)"
    using pow2_pos [of e] by (simp add: abs_mult)
  also have "\<dots> = of_int (\<bar>m\<bar> * 2 ^ k)" unfolding sc by simp
  finally have eq: "\<bar>of_int m * pow2 e\<bar> * 2 ^ d = real_of_int (\<bar>m\<bar> * 2 ^ k)" .
  have fl: "\<lfloor>\<bar>of_int m * pow2 e\<bar> * 2 ^ d\<rfloor> = \<bar>m\<bar> * 2 ^ k"
    unfolding eq by (rule floor_of_int)
  have "bitlen (\<bar>m\<bar> * 2 ^ k) \<le> int p + int k"
  proof (cases "m = 0")
    case True
    then show ?thesis by simp
  next
    case False
    then have pos: "0 < \<bar>m\<bar>" by simp
    have "bitlen \<bar>m\<bar> \<le> int p"
      using m by (simp add: bitlen_le_iff_power)
    then show ?thesis using bitlen_pow2 [OF pos, of k] by simp
  qed
  then show ?thesis
    unfolding ulp_exp_def fl using e ek by simp
qed

lemma round_float_exact:
  assumes m: "\<bar>m\<bar> < 2 ^ p" and e: "- int d \<le> e"
  shows "round_float p d (of_int m * pow2 e) = of_int m * pow2 e"
proof -
  define u where "u = ulp_exp p d (of_int m * pow2 e)"
  have ue: "u \<le> e" unfolding u_def by (rule ulp_exp_exact [OF m e])
  have split: "pow2 e = pow2 (e - u) * pow2 u"
    using pow2_add [of "e - u" u] by simp
  have int: "pow2 (e - u) = of_int (2 ^ nat (e - u))"
    using ue by (simp add: pow2_nat)
  have "of_int m * pow2 e / pow2 u = of_int m * pow2 (e - u)"
    unfolding split using pow2_pos [of u] by simp
  also have "\<dots> = of_int (m * 2 ^ nat (e - u))" unfolding int by simp
  finally have q: "of_int m * pow2 e / pow2 u = of_int (m * 2 ^ nat (e - u))" .
  have "round_float p d (of_int m * pow2 e) = of_int (rne (of_int m * pow2 e / pow2 u)) * pow2 u"
    by (simp add: round_float_def Let_def u_def)
  also have "\<dots> = of_int (m * 2 ^ nat (e - u)) * pow2 u"
    unfolding q rne_of_int ..
  also have "\<dots> = of_int m * (pow2 (e - u) * pow2 u)"
    unfolding int by simp
  also have "\<dots> = of_int m * pow2 e" unfolding split [symmetric] ..
  finally show ?thesis .
qed

lemma round_float_of_int: "\<bar>n\<bar> < 2 ^ p \<Longrightarrow> round_float p d (of_int n) = of_int n"
  using round_float_exact [of n p d 0] by (simp add: pow2_def)

lemma binary32_0: "binary32 0 = 0"
  by (simp add: binary32_def round_float_0)

lemma binary32_1: "binary32 1 = 1"
  using round_float_of_int [of 1 24 149] by (simp add: binary32_def)

lemma binary32_numeral: "(numeral k :: int) < 2 ^ 24 \<Longrightarrow> binary32 (numeral k) = numeral k"
  using round_float_of_int [of "numeral k" 24 149] by (simp add: binary32_def)

lemma binary32_neg_numeral:
  "(numeral k :: int) < 2 ^ 24 \<Longrightarrow> binary32 (- numeral k) = - numeral k"
  using round_float_of_int [of "- numeral k" 24 149] by (simp add: binary32_def)

lemma binary32_neg_1: "binary32 (- 1) = - 1"
  using round_float_of_int [of "- 1" 24 149] by (simp add: binary32_def)

lemma binary32_nonneg: "0 \<le> x \<Longrightarrow> 0 \<le> binary32 x"
  by (simp add: binary32_def round_float_nonneg)

lemma binary64_0: "binary64 0 = 0"
  by (simp add: binary64_def round_float_0)

lemma binary64_1: "binary64 1 = 1"
  using round_float_of_int [of 1 53 1074] by (simp add: binary64_def)

lemma binary64_numeral: "(numeral k :: int) < 2 ^ 53 \<Longrightarrow> binary64 (numeral k) = numeral k"
  using round_float_of_int [of "numeral k" 53 1074] by (simp add: binary64_def)

lemma binary64_neg_numeral:
  "(numeral k :: int) < 2 ^ 53 \<Longrightarrow> binary64 (- numeral k) = - numeral k"
  using round_float_of_int [of "- numeral k" 53 1074] by (simp add: binary64_def)

lemma binary64_neg_1: "binary64 (- 1) = - 1"
  using round_float_of_int [of "- 1" 53 1074] by (simp add: binary64_def)

lemmas float_simps =
  binary32_0 binary32_1 binary32_numeral binary32_neg_numeral binary32_neg_1
  binary64_0 binary64_1 binary64_numeral binary64_neg_numeral binary64_neg_1

lemma pow2_neg_nat: "pow2 (- int n) = 1 / 2 ^ n"
proof (cases "n = 0")
  case True
  then show ?thesis by (simp add: pow2_def)
next
  case False
  then have "\<not> 0 \<le> - int n" by simp
  moreover have "nat (- (- int n)) = n" by simp
  ultimately show ?thesis unfolding pow2_def by (simp only: if_False)
qed

lemma rne_error: "\<bar>of_int (rne q) - q\<bar> \<le> 1 / 2"
  unfolding rne_def Let_def by (simp; linarith)

lemma round_float_error: "\<bar>round_float p d x - x\<bar> \<le> \<bar>x\<bar> / 2 ^ p + 1 / 2 ^ (d + 1)"
proof -
  define e where "e = ulp_exp p d x"
  define N where "N = \<lfloor>\<bar>x\<bar> * 2 ^ d\<rfloor>"
  have pe: "0 < pow2 e" by (rule pow2_pos)
  have "round_float p d x - x = (of_int (rne (x / pow2 e)) - x / pow2 e) * pow2 e"
    using pe by (simp add: round_float_def Let_def e_def field_simps)
  then have "\<bar>round_float p d x - x\<bar> = \<bar>of_int (rne (x / pow2 e)) - x / pow2 e\<bar> * pow2 e"
    using pe by (simp add: abs_mult)
  also have "\<dots> \<le> 1 / 2 * pow2 e"
    using rne_error [of "x / pow2 e"] pe by (intro mult_right_mono) simp_all
  finally have half: "\<bar>round_float p d x - x\<bar> \<le> pow2 e / 2" by simp
  show ?thesis
  proof (cases "bitlen N - int p - int d \<le> - int d")
    case True
    then have "e = - int d" by (simp add: e_def ulp_exp_def N_def)
    then have "pow2 e / 2 = 1 / 2 ^ (d + 1)" by (simp add: pow2_def)
    moreover have "0 \<le> \<bar>x\<bar> / 2 ^ p" by simp
    ultimately show ?thesis using half by linarith
  next
    case False
    then have eq: "e = bitlen N - int p - int d" by (simp add: e_def ulp_exp_def N_def)
    from False have bl: "int p < bitlen N" by simp
    then have Npos: "0 < N" using bitlen_eq_zero_iff [of N] bitlen_nonneg [of N] by (cases "0 < N") auto
    have lo: "2 ^ nat (bitlen N - 1) \<le> N" using bitlen_bounds [OF Npos] by simp
    have "real_of_int N \<le> \<bar>x\<bar> * 2 ^ d" by (simp add: N_def)
    moreover have "real_of_int (2 ^ nat (bitlen N - 1)) \<le> real_of_int N"
      using lo by (rule iffD2 [OF of_int_le_iff])
    moreover have "real_of_int (2 ^ nat (bitlen N - 1)) = 2 ^ nat (bitlen N - 1)"
      by simp
    ultimately have lo': "2 ^ nat (bitlen N - 1) \<le> \<bar>x\<bar> * 2 ^ d"
      by linarith
    have "e = (bitlen N - 1) + (1 - int p - int d)" by (simp add: eq)
    then have "pow2 e = pow2 (bitlen N - 1) * pow2 (1 - int p - int d)"
      by (simp add: pow2_add [symmetric])
    also have "pow2 (bitlen N - 1) = 2 ^ nat (bitlen N - 1)"
      using bl by (simp add: pow2_def)
    also have "pow2 (1 - int p - int d) = 2 / (2 ^ p * 2 ^ d)"
    proof -
      have ee: "1 - int p - int d = 1 + (- int p + - int d)" by linarith
      have one: "pow2 1 = 2" by (simp add: pow2_def)
      show ?thesis
        unfolding ee pow2_add pow2_neg_nat one by simp
    qed
    finally have "pow2 e = 2 ^ nat (bitlen N - 1) * (2 / (2 ^ p * 2 ^ d))" .
    also have "\<dots> \<le> (\<bar>x\<bar> * 2 ^ d) * (2 / (2 ^ p * 2 ^ d))"
      using lo' by (intro mult_right_mono) simp_all
    also have "\<dots> = 2 * (\<bar>x\<bar> / 2 ^ p)" by simp
    finally have "pow2 e / 2 \<le> \<bar>x\<bar> / 2 ^ p" by linarith
    moreover have "(0::real) \<le> 1 / 2 ^ (d + 1)" by simp
    ultimately show ?thesis using half by linarith
  qed
qed

lemma binary32_error: "\<bar>binary32 x - x\<bar> \<le> \<bar>x\<bar> / 2 ^ 24 + 1 / 2 ^ 150"
  using round_float_error [of 24 149 x] by (simp add: binary32_def)

lemma binary64_error: "\<bar>binary64 x - x\<bar> \<le> \<bar>x\<bar> / 2 ^ 53 + 1 / 2 ^ 1075"
  using round_float_error [of 53 1074 x] by (simp add: binary64_def)

lemma round_float_dyadic:
  "\<bar>m\<bar> < 2 ^ p \<Longrightarrow> n \<le> d \<Longrightarrow> round_float p d (of_int m / 2 ^ n) = of_int m / 2 ^ n"
  using round_float_exact [of m p d "- int n"] by (simp add: pow2_neg_nat)

lemma binary64_dyadic:
  "\<bar>m\<bar> < 2 ^ 53 \<Longrightarrow> n \<le> 1074 \<Longrightarrow> binary64 (of_int m / 2 ^ n) = of_int m / 2 ^ n"
  unfolding binary64_def by (rule round_float_dyadic)

lemma binary32_dyadic:
  "\<bar>m\<bar> < 2 ^ 24 \<Longrightarrow> n \<le> 149 \<Longrightarrow> binary32 (of_int m / 2 ^ n) = of_int m / 2 ^ n"
  unfolding binary32_def by (rule round_float_dyadic)

section \<open>Cancellation when nothing but markers is selected\<close>

text \<open>
  Claim C3. When the document save has succeeded and the selection, with the objects of
  type EMPTY filtered out, is empty, \<open>execute\<close> reports the error
  "No valid mesh objects to export." and returns CANCELLED. The state it returns is the
  state the save left, with that report added and nothing else changed: no object, mesh,
  cursor or selection is touched, and the only host operator in the trace since the start
  is the save, so no exporter ran.
\<close>

theorem cancel_when_no_valid_objects:
  assumes "call_op h ''wm.save_as_mainfile'' [(''filepath'', PStr (filepath s))] s = (Inr (), s1)"
      and "filter (\<lambda>obj. otype (objs s1 obj) \<noteq> ''EMPTY'') (selected_objects s1) = []"
  shows "execute h s =
           (Inr CANCELLED,
            s1\<lparr>reports := reports s1 @ [(''ERROR'', ''No valid mesh objects to export.'')]\<rparr>)
         \<and> calls s1 = calls s @ [(''wm.save_as_mainfile'', [(''filepath'', PStr (filepath s))])]"
proof
  show "execute h s =
           (Inr CANCELLED,
            s1\<lparr>reports := reports s1 @ [(''ERROR'', ''No valid mesh objects to export.'')]\<rparr>)"
    using assms by (simp add: execute_def and_then_Inr report_def)
  show "calls s1 = calls s @ [(''wm.save_as_mainfile'', [(''filepath'', PStr (filepath s))])]"
    using assms(1) by (auto simp: call_op_def split: option.splits prod.splits)
qed

lemma marker_save:
  "call_op demo_host ''wm.save_as_mainfile'' [(''filepath'', PStr (filepath marker_doc))] marker_doc
     = (Inr (), marker_doc\<lparr>calls := [(''wm.save_as_mainfile'', [(''filepath'', PStr ''game.blend'')])]\<rparr>)"
  by (simp add: run_defs demo_defs)

text \<open>With only the empty Anchor selected, the run is cancelled and the document is as
  it was, but for the save in the trace and the report.\<close>

theorem cancel_when_no_valid_objects_witness:
  "selected_objects marker_doc = [''Anchor'']
   \<and> execute demo_host marker_doc =
       (Inr CANCELLED,
        marker_doc\<lparr>calls := [(''wm.save_as_mainfile'', [(''filepath'', PStr ''game.blend'')])],
                    reports := [(''ERROR'', ''No valid mesh objects to export.'')]\<rparr>)"
proof -
  let ?s1 = "marker_doc\<lparr>calls := [(''wm.save_as_mainfile'', [(''filepath'', PStr ''game.blend'')])]\<rparr>"
  have sel: "selected_objects marker_doc = [''Anchor'']"
    by (simp add: run_defs demo_defs)
  have none: "filter (\<lambda>obj. otype (objs ?s1 obj) \<noteq> ''EMPTY'') (selected_objects ?s1) = []"
    by (simp add: run_defs demo_defs)
  from cancel_when_no_valid_objects [OF marker_save none] sel show ?thesis
    by (simp add: demo_defs run_defs)
qed

section \<open>The origin policy of a run\<close>

lemma location_fold_set_location:
  "obj \<in> set xs \<or> location (objs t obj) = (0, 0, 0) \<Longrightarrow>
   location (objs (fold (\<lambda>obj. set_location obj (0, 0, 0)) xs t) obj) = (0, 0, 0)"
proof (induction xs arbitrary: t)
  case Nil
  then show ?case by simp
next
  case (Cons x xs)
  have "obj \<in> set xs \<or> location (objs (set_location x (0, 0, 0) t) obj) = (0, 0, 0)"
    using Cons.prems by (auto simp: set_location_def)
  from Cons.IH [OF this] show ?case by simp
qed

lemma location_move_to_origin:
  "obj \<in> set selected \<Longrightarrow> location (objs (move_to_origin selected s) obj) = (0, 0, 0)"
  by (simp add: move_to_origin_def location_fold_set_location)

text \<open>
  Claim C8. The origin handling of \<open>execute\<close> applies exactly one policy to the selected
  objects, the one the specification's precedence picks from the two flags: the custom
  anchor when \<open>custom_origin\<close> is set (whatever \<open>origin_at_bottom\<close> is), bottom centre
  when only \<open>origin_at_bottom\<close> is set, and the cursor at the object's location when
  neither is. Whenever the origin handling has returned, the run goes on from the state in
  which every selected object's location is (0, 0, 0).
\<close>

theorem origin_policy_precedence:
  "origin_handling h selected s = apply_policy h (active_policy (scene s)) selected s
   \<and> (custom_origin (scene s) \<longrightarrow> active_policy (scene s) = CustomEmptyAnchor)
   \<and> (\<not> custom_origin (scene s) \<and> origin_at_bottom (scene s) \<longrightarrow>
        active_policy (scene s) = AtBottomCenter)
   \<and> (\<not> custom_origin (scene s) \<and> \<not> origin_at_bottom (scene s) \<longrightarrow>
        active_policy (scene s) = CursorAtObject)
   \<and> (\<forall>s1. origin_handling h selected s = (Inr (), s1) \<longrightarrow>
          try_body h selected s = export_phase h selected (move_to_origin selected s1)
          \<and> (\<forall>obj \<in> set selected. location (objs (move_to_origin selected s1) obj) = (0, 0, 0)))"
proof (intro conjI allI impI)
  show "origin_handling h selected s = apply_policy h (active_policy (scene s)) selected s"
    by (simp add: origin_handling_def active_policy_def)
next
  assume "custom_origin (scene s)"
  then show "active_policy (scene s) = CustomEmptyAnchor"
    by (simp add: active_policy_def)
next
  assume "\<not> custom_origin (scene s) \<and> origin_at_bottom (scene s)"
  then show "active_policy (scene s) = AtBottomCenter"
    by (simp add: active_policy_def)
next
  assume "\<not> custom_origin (scene s) \<and> \<not> origin_at_bottom (scene s)"
  then show "active_policy (scene s) = CursorAtObject"
    by (simp add: active_policy_def)
next
  fix s1 assume "origin_handling h selected s = (Inr (), s1)"
  then show "try_body h selected s = export_phase h selected (move_to_origin selected s1)"
    by (simp add: try_body_def and_then_Inr)
next
  fix s1
  show "\<forall>obj \<in> set selected. location (objs (move_to_origin selected s1) obj) = (0, 0, 0)"
    by (simp add: location_move_to_origin)
qed

text \<open>With both flags off, Cube and Path get the cursor policy, and both are at
  (0, 0, 0) when the export phase starts.\<close>

theorem origin_policy_precedence_witness:
  "\<not> custom_origin (scene demo_doc) \<and> \<not> origin_at_bottom (scene demo_doc)
   \<and> active_policy (scene demo_doc) = CursorAtObject
   \<and> fst (origin_handling demo_host [''Cube'', ''Path''] demo_doc) = Inr ()
   \<and> try_body demo_host [''Cube'', ''Path''] demo_doc =
       export_phase demo_host [''Cube'', ''Path'']
         (move_to_origin [''Cube'', ''Path'']
            (snd (origin_handling demo_host [''Cube'', ''Path''] demo_doc)))
   \<and> location (objs (move_to_origin [''Cube'', ''Path'']
         (snd (origin_handling demo_host [''Cube'', ''Path''] demo_doc))) ''Cube'') = (0, 0, 0)
   \<and> location (objs (move_to_origin [''Cube'', ''Path'']
         (snd (origin_handling demo_host [''Cube'', ''Path''] demo_doc))) ''Path'') = (0, 0, 0)"
proof -
  let ?sel = "[''Cube'', ''Path'']"
  let ?r = "origin_handling demo_host ?sel demo_doc"
  have flags: "\<not> custom_origin (scene demo_doc) \<and> \<not> origin_at_bottom (scene demo_doc)"
    by (simp add: demo_defs)
  have f: "fst ?r = Inr ()"
    by (simp add: run_defs demo_defs)
  then have e: "?r = (Inr (), snd ?r)"
    by (metis prod.collapse)
  note T = origin_policy_precedence [of demo_host ?sel demo_doc]
  from T flags have pol: "active_policy (scene demo_doc) = CursorAtObject"
    by blast
  from T e
  have "try_body demo_host ?sel demo_doc = export_phase demo_host ?sel (move_to_origin ?sel (snd ?r))
        \<and> (\<forall>obj \<in> set ?sel. location (objs (move_to_origin ?sel (snd ?r)) obj) = (0, 0, 0))"
    by blast
  with pol f flags show ?thesis by simp
qed

section \<open>The marker name that is never registered\<close>

lemma find_custom_empty_unregistered:
  "selected_empty (scene s) = None \<Longrightarrow>
   find_custom_empty s cs =
     (if list_ex (\<lambda>c. otype (objs s c) = ''EMPTY'') cs
      then Inl (AttributeError ''selected_empty'') else Inr None)"
  by (induction cs) simp_all

lemma process_obj_unregistered:
  "selected_empty (scene s) = None \<Longrightarrow>
   process_obj h obj s =
     (if reads_marker_name s obj then (Inl (AttributeError ''selected_empty''), s) else (Inr (), s))"
  by (simp add: process_obj_def reads_marker_name_def find_custom_empty_unregistered)

lemma for_each_process_obj_unregistered:
  "selected_empty (scene s) = None \<Longrightarrow>
   for_each (process_obj h) xs s =
     (if list_ex (reads_marker_name s) xs then (Inl (AttributeError ''selected_empty''), s)
      else (Inr (), s))"
  by (induction xs) (simp_all add: process_obj_unregistered)

lemma set_origin_to_custom_unregistered:
  "selected_empty (scene s) = None \<Longrightarrow>
   set_origin_to_custom h (Many xs) s =
     (if list_ex (reads_marker_name s) xs then (Inl (AttributeError ''selected_empty''), s)
      else (Inr (), s))"
  by (simp add: set_origin_to_custom_def process_objects_def and_then_def
      for_each_process_obj_unregistered)

text \<open>
  Claim C10, as the source has it. The add-on registers no \<open>selected_empty\<close>, and reads
  it in the marker lookup; but the read stands on the right of \<^verbatim>\<open>and\<close>, after the test
  that the child is an EMPTY, so it is not unconditional. The run below has the
  custom-origin flag set on a scene without \<open>selected_empty\<close>, its one selected mesh has no
  child, the attribute is never read, and the run ends FINISHED with its file exported.
\<close>

theorem selected_empty_not_always_read:
  "custom_origin (scene lone_custom_doc) \<and> selected_empty (scene lone_custom_doc) = None
   \<and> selected_objects lone_custom_doc = [''Rock'']
   \<and> fst (execute demo_host lone_custom_doc) = Inr FINISHED
   \<and> exports (snd (execute demo_host lone_custom_doc)) =
        [(''export_scene.fbx'',
          [(''filepath'', PStr ''out/Rock.fbx''), (''use_selection'', PBool True),
           (''use_mesh_modifiers'', PBool False), (''use_triangles'', PBool False),
           (''colors_type'', PStr ''NONE'')])]"
  by (simp add: run_defs demo_defs exports_def is_export_def str_lower_FBX)

text \<open>
  Claim C10, amended. On a scene without \<open>selected_empty\<close> and with the custom-origin
  flag set, the \<^verbatim>\<open>try\<close> body raises AttributeError exactly when some selected object is
  a mesh with a child of type EMPTY; it does so with the state unchanged, so before any
  origin, cursor or location is changed and before anything is exported, and \<open>execute\<close>
  then runs the restore phase on that state and lets the AttributeError propagate (unless
  the restore phase raises itself). When no selected mesh has a child of type EMPTY the
  lookup raises nothing, the origin handling changes nothing, and the run goes on to move
  the objects to (0, 0, 0) and export.
\<close>

theorem selected_empty_lookup:
  assumes "selected_empty (scene s1) = None" and "custom_origin (scene s1)"
  shows "try_body h selected s1 =
           (if list_ex (reads_marker_name s1) selected
            then (Inl (AttributeError ''selected_empty''), s1)
            else export_phase h selected (move_to_origin selected s1))
         \<and> (call_op h ''wm.save_as_mainfile'' [(''filepath'', PStr (filepath s))] s = (Inr (), s1) \<longrightarrow>
            selected = filter (\<lambda>obj. otype (objs s1 obj) \<noteq> ''EMPTY'') (selected_objects s1) \<longrightarrow>
            list_ex (reads_marker_name s1) selected \<longrightarrow>
            execute h s =
              (case finally_block h (store_original_state s1 selected) selected s1 of
                 (Inl e, s3) \<Rightarrow> (Inl e, s3)
               | (Inr u, s3) \<Rightarrow> (Inl (AttributeError ''selected_empty''), s3)))"
proof (intro conjI impI)
  show body: "try_body h selected s1 =
           (if list_ex (reads_marker_name s1) selected
            then (Inl (AttributeError ''selected_empty''), s1)
            else export_phase h selected (move_to_origin selected s1))"
    using assms
    by (simp add: try_body_def origin_handling_def and_then_def set_origin_to_custom_unregistered)
  assume save: "call_op h ''wm.save_as_mainfile'' [(''filepath'', PStr (filepath s))] s = (Inr (), s1)"
    and sel: "selected = filter (\<lambda>obj. otype (objs s1 obj) \<noteq> ''EMPTY'') (selected_objects s1)"
    and ex: "list_ex (reads_marker_name s1) selected"
  from ex have ne: "selected \<noteq> []" by auto
  show "execute h s =
           (case finally_block h (store_original_state s1 selected) selected s1 of
              (Inl e, s3) \<Rightarrow> (Inl e, s3)
            | (Inr u, s3) \<Rightarrow> (Inl (AttributeError ''selected_empty''), s3))"
    using save ne ex body sel [symmetric]
    by (simp add: execute_def and_then_Inr Let_def split: prod.splits sum.splits)
qed

text \<open>Cube has the child empty Anchor: the lookup raises and the document is untouched.
  Rock has no child: nothing is raised.\<close>

theorem selected_empty_lookup_witness:
  "selected_empty (scene cube_custom_doc) = None \<and> custom_origin (scene cube_custom_doc)
   \<and> list_ex (reads_marker_name cube_custom_doc) [''Cube'']
   \<and> try_body demo_host [''Cube''] cube_custom_doc =
        (Inl (AttributeError ''selected_empty''), cube_custom_doc)
   \<and> fst (execute demo_host cube_custom_doc) = Inl (AttributeError ''selected_empty'')
   \<and> \<not> list_ex (reads_marker_name lone_custom_doc) [''Rock'']
   \<and> try_body demo_host [''Rock''] lone_custom_doc =
        export_phase demo_host [''Rock''] (move_to_origin [''Rock''] lone_custom_doc)"
proof -
  let ?s1 = "cube_custom_doc\<lparr>calls := [(''wm.save_as_mainfile'', [(''filepath'', PStr ''game.blend'')])]\<rparr>"
  have a: "selected_empty (scene cube_custom_doc) = None" "custom_origin (scene cube_custom_doc)"
    "list_ex (reads_marker_name cube_custom_doc) [''Cube'']"
    by (simp_all add: demo_defs run_defs reads_marker_name_def)
  have b: "selected_empty (scene lone_custom_doc) = None" "custom_origin (scene lone_custom_doc)"
    "\<not> list_ex (reads_marker_name lone_custom_doc) [''Rock'']"
    by (simp_all add: demo_defs run_defs reads_marker_name_def)
  have c: "selected_empty (scene ?s1) = None" "custom_origin (scene ?s1)"
    "list_ex (reads_marker_name ?s1) [''Cube'']"
    by (simp_all add: demo_defs run_defs reads_marker_name_def)
  have save: "call_op demo_host ''wm.save_as_mainfile'' [(''filepath'', PStr (filepath cube_custom_doc))]
      cube_custom_doc = (Inr (), ?s1)"
    by (simp add: run_defs demo_defs)
  have sel: "[''Cube''] = filter (\<lambda>obj. otype (objs ?s1 obj) \<noteq> ''EMPTY'') (selected_objects ?s1)"
    by (simp add: run_defs demo_defs)
  have fin: "fst (finally_block demo_host (store_original_state ?s1 [''Cube'']) [''Cube''] ?s1) = Inr ()"
    by (simp add: run_defs demo_defs)
  from selected_empty_lookup [OF c(1,2), of demo_host "[''Cube'']" cube_custom_doc] save sel c(3)
  have "execute demo_host cube_custom_doc =
              (case finally_block demo_host (store_original_state ?s1 [''Cube'']) [''Cube''] ?s1 of
                 (Inl e, s3) \<Rightarrow> (Inl e, s3)
               | (Inr u, s3) \<Rightarrow> (Inl (AttributeError ''selected_empty''), s3))"
    by blast
  with fin have ex: "fst (execute demo_host cube_custom_doc) = Inl (AttributeError ''selected_empty'')"
    by (simp split: prod.splits sum.splits)
  from selected_empty_lookup [OF a(1,2), of demo_host "[''Cube'']"]
       selected_empty_lookup [OF b(1,2), of demo_host "[''Rock'']"] a b ex
  show ?thesis by simp
qed

section \<open>Origin at the bottom centre\<close>

lemma fold_min_le: "fold min xs (a::real) \<le> a"
proof (induction xs arbitrary: a)
  case Nil
  then show ?case by simp
next
  case (Cons x xs)
  have "fold min xs (min x a) \<le> min x a" by (rule Cons.IH)
  also have "min x a \<le> a" by simp
  finally show ?case by simp
qed

lemma fold_max_ge: "(a::real) \<le> fold max xs a"
proof (induction xs arbitrary: a)
  case Nil
  then show ?case by simp
next
  case (Cons x xs)
  have "a \<le> max x a" by simp
  also have "max x a \<le> fold max xs (max x a)" by (rule Cons.IH)
  finally show ?case by simp
qed

lemma minimum_le_maximum: "minimum xs \<le> maximum xs"
  unfolding minimum_def maximum_def
  using fold_min_le [of "tl xs" "hd xs"] fold_max_ge [of "hd xs" "tl xs"] by linarith

lemma fold_min_shift: "fold min (map (\<lambda>x. x - c) xs) (a - c) = fold min xs a - (c::real)"
proof (induction xs arbitrary: a)
  case Nil
  then show ?case by simp
next
  case (Cons x xs)
  have "min (x - c) (a - c) = min x a - c" by (simp add: min_def)
  with Cons.IH [of "min x a"] show ?case by simp
qed

lemma fold_max_shift: "fold max (map (\<lambda>x. x - c) xs) (a - c) = fold max xs a - (c::real)"
proof (induction xs arbitrary: a)
  case Nil
  then show ?case by simp
next
  case (Cons x xs)
  have "max (x - c) (a - c) = max x a - c" by (simp add: max_def)
  with Cons.IH [of "max x a"] show ?case by simp
qed

lemma minimum_shift: "xs \<noteq> [] \<Longrightarrow> minimum (map (\<lambda>x. x - c) xs) = minimum xs - c"
  by (cases xs) (simp_all add: minimum_def fold_min_shift)

lemma maximum_shift: "xs \<noteq> [] \<Longrightarrow> maximum (map (\<lambda>x. x - c) xs) = maximum xs - c"
  by (cases xs) (simp_all add: maximum_def fold_max_shift)

lemma map_vx_sub: "map vx (map (\<lambda>v. vec_sub v c) vs) = map (\<lambda>x. x - vx c) (map vx vs)"
  by (cases c) (auto simp: comp_def)

lemma map_vy_sub: "map vy (map (\<lambda>v. vec_sub v c) vs) = map (\<lambda>x. x - vy c) (map vy vs)"
  by (cases c) (auto simp: comp_def)

lemma map_vz_sub: "map vz (map (\<lambda>v. vec_sub v c) vs) = map (\<lambda>x. x - vz c) (map vz vs)"
  by (cases c) (auto simp: comp_def)

lemma bottom_center_after_shift:
  assumes "vs \<noteq> []"
  shows "bottom_center (map (\<lambda>v. vec_sub v (bottom_center vs)) vs) = (0, 0, 0)"
proof -
  have ne: "map vx vs \<noteq> []" "map vy vs \<noteq> []" "map vz vs \<noteq> []"
    using assms by simp_all
  show ?thesis
    unfolding bottom_center_def [of "map _ vs"] map_vx_sub map_vy_sub map_vz_sub
      minimum_shift [OF ne(1)] minimum_shift [OF ne(2)] minimum_shift [OF ne(3)]
      maximum_shift [OF ne(1)] maximum_shift [OF ne(2)]
    by (simp add: bottom_center_def field_simps)
qed

lemma minimum_Min: "xs \<noteq> [] \<Longrightarrow> minimum xs = Min (set xs)"
proof (cases xs)
  case Nil
  assume "xs \<noteq> []"
  with Nil show ?thesis by simp
next
  case (Cons a list)
  show ?thesis unfolding Cons minimum_def list.sel by (rule Min.set_eq_fold [symmetric])
qed

lemma maximum_Max: "xs \<noteq> [] \<Longrightarrow> maximum xs = Max (set xs)"
proof (cases xs)
  case Nil
  assume "xs \<noteq> []"
  with Nil show ?thesis by simp
next
  case (Cons a list)
  show ?thesis unfolding Cons maximum_def list.sel by (rule Max.set_eq_fold [symmetric])
qed

lemma minimum_in: "xs \<noteq> [] \<Longrightarrow> minimum xs \<in> set xs"
  using Min_in [of "set xs"] by (simp add: minimum_Min)

lemma maximum_in: "xs \<noteq> [] \<Longrightarrow> maximum xs \<in> set xs"
  using Max_in [of "set xs"] by (simp add: maximum_Max)

lemma minimum_le: "x \<in> set xs \<Longrightarrow> minimum xs \<le> x"
  using Min_le [of "set xs" x] by (cases "xs = []") (simp_all add: minimum_Min)

lemma maximum_ge: "x \<in> set xs \<Longrightarrow> x \<le> maximum xs"
  using Max_ge [of "set xs" x] by (cases "xs = []") (simp_all add: maximum_Max)

lemma minimum_zero:
  assumes "xs \<noteq> []" and "0 \<in> set xs" and "\<forall>x \<in> set xs. 0 \<le> x"
  shows "minimum xs = 0"
  using minimum_le [OF assms(2)] minimum_in [OF assms(1)] assms(3) by force

lemma minimum_close:
  assumes ne: "vs \<noteq> []" and close: "\<forall>v \<in> set vs. \<bar>f v - g v\<bar> \<le> E"
  shows "\<bar>minimum (map f vs) - minimum (map g vs)\<bar> \<le> (E::real)"
proof -
  have nf: "map f vs \<noteq> []" and ng: "map g vs \<noteq> []" using ne by simp_all
  obtain v where v: "v \<in> set vs" "minimum (map f vs) = f v"
    using minimum_in [OF nf] by auto
  obtain w where w: "w \<in> set vs" "minimum (map g vs) = g w"
    using minimum_in [OF ng] by auto
  have "minimum (map f vs) \<le> f w" using w(1) by (intro minimum_le) simp
  moreover have "minimum (map g vs) \<le> g v" using v(1) by (intro minimum_le) simp
  moreover have "\<bar>f v - g v\<bar> \<le> E" "\<bar>f w - g w\<bar> \<le> E" using close v(1) w(1) by simp_all
  ultimately show ?thesis using v(2) w(2) by linarith
qed

lemma maximum_close:
  assumes ne: "vs \<noteq> []" and close: "\<forall>v \<in> set vs. \<bar>f v - g v\<bar> \<le> E"
  shows "\<bar>maximum (map f vs) - maximum (map g vs)\<bar> \<le> (E::real)"
proof -
  have nf: "map f vs \<noteq> []" and ng: "map g vs \<noteq> []" using ne by simp_all
  obtain v where v: "v \<in> set vs" "maximum (map f vs) = f v"
    using maximum_in [OF nf] by auto
  obtain w where w: "w \<in> set vs" "maximum (map g vs) = g w"
    using maximum_in [OF ng] by auto
  have "f w \<le> maximum (map f vs)" using w(1) by (intro maximum_ge) simp
  moreover have "g v \<le> maximum (map g vs)" using v(1) by (intro maximum_ge) simp
  moreover have "\<bar>f v - g v\<bar> \<le> E" "\<bar>f w - g w\<bar> \<le> E" using close v(1) w(1) by simp_all
  ultimately show ?thesis using v(2) w(2) by linarith
qed

lemma binary64_error_coarse: "\<bar>binary64 x - x\<bar> \<le> \<bar>x\<bar> / 2 ^ 24 + 1 / 2 ^ 150"
proof -
  have "(1::real) / 2 ^ 1075 \<le> 1 / 2 ^ 150"
    by (intro divide_left_mono power_increasing) simp_all
  moreover have "\<bar>x\<bar> / 2 ^ 53 \<le> \<bar>x\<bar> / 2 ^ 24"
    by (intro divide_left_mono power_increasing) simp_all
  ultimately show ?thesis using binary64_error [of x] by linarith
qed

text \<open>The centre as line 107 rounds it, against the exact one.\<close>

lemma rounded_centre_error:
  assumes a: "\<bar>a\<bar> \<le> R" and b: "\<bar>b\<bar> \<le> R"
  shows "\<bar>binary32 (binary64 (binary64 (a + b) / 2)) - (a + b) / 2\<bar> \<le> R / 2 ^ 21 + 1 / 2 ^ 148"
proof -
  define s where "s = binary64 (a + b)"
  define h where "h = binary64 (s / 2)"
  define u :: real where "u = 1 / 2 ^ 24"
  define t :: real where "t = 1 / 2 ^ 150"
  have R: "0 \<le> R" using a by linarith
  have u: "0 \<le> u" "u \<le> 1 / 16" and t: "0 \<le> t" by (simp_all add: u_def t_def)
  have e1: "\<bar>s - (a + b)\<bar> \<le> \<bar>a + b\<bar> * u + t"
    using binary64_error_coarse [of "a + b"] by (simp add: s_def u_def t_def)
  have e2: "\<bar>h - s / 2\<bar> \<le> \<bar>s / 2\<bar> * u + t"
    using binary64_error_coarse [of "s / 2"] by (simp add: h_def u_def t_def)
  have e3: "\<bar>binary32 h - h\<bar> \<le> \<bar>h\<bar> * u + t"
    using binary32_error [of h] by (simp add: u_def t_def)
  have ab: "\<bar>a + b\<bar> \<le> 2 * R" using a b by linarith
  have "\<bar>a + b\<bar> * u \<le> 2 * R * u" using ab u(1) by (rule mult_right_mono)
  with e1 have d1: "\<bar>s - (a + b)\<bar> \<le> 2 * R * u + t" by linarith
  have Ru: "R * u \<le> R / 16" using R u(2) mult_left_mono [of u "1 / 16" R] by simp
  have s3: "\<bar>s / 2\<bar> \<le> 2 * R + t" using d1 ab Ru t by linarith
  have "\<bar>s / 2\<bar> * u \<le> (2 * R + t) * u" using s3 u(1) by (rule mult_right_mono)
  with e2 have d2: "\<bar>h - s / 2\<bar> \<le> (2 * R + t) * u + t" by linarith
  have tu: "t * u \<le> t / 16" using t u(2) mult_left_mono [of u "1 / 16" t] by simp
  have d2': "\<bar>h - s / 2\<bar> \<le> 2 * (R * u) + t * u + t"
    using d2 by (simp add: algebra_simps)
  have hh: "\<bar>h\<bar> \<le> 3 * R + 3 * t"
    using d2' s3 Ru tu t R by linarith
  have "\<bar>h\<bar> * u \<le> (3 * R + 3 * t) * u" using hh u(1) by (rule mult_right_mono)
  with e3 have "\<bar>binary32 h - h\<bar> \<le> (3 * R + 3 * t) * u + t" by linarith
  then have d3: "\<bar>binary32 h - h\<bar> \<le> 3 * (R * u) + 3 * (t * u) + t"
    by (simp add: algebra_simps)
  have d1': "\<bar>s - (a + b)\<bar> \<le> 2 * (R * u) + t" using d1 by (simp add: algebra_simps)
  have "\<bar>h - (a + b) / 2\<bar> \<le> \<bar>h - s / 2\<bar> + \<bar>s - (a + b)\<bar> / 2" by argo
  moreover have "\<bar>binary32 h - (a + b) / 2\<bar> \<le> \<bar>binary32 h - h\<bar> + \<bar>h - (a + b) / 2\<bar>"
    by linarith
  ultimately have "\<bar>binary32 h - (a + b) / 2\<bar> \<le> 6 * (R * u) + 4 * (t * u) + 3 * t"
    using d1' d2' d3 t by linarith
  also have "\<dots> \<le> 8 * (R * u) + 4 * t"
    using tu t mult_nonneg_nonneg [OF R u(1)] by linarith
  also have "\<dots> = R / 2 ^ 21 + 1 / 2 ^ 148"
    by (simp add: u_def t_def)
  finally show ?thesis by (simp add: h_def s_def)
qed


lemma map_vx_Vector_sub:
  "map vx (map (\<lambda>v. Vector (vec_sub v c)) vs) = map (\<lambda>x. binary32 (x - vx c)) (map vx vs)"
  by (cases c) (auto simp: comp_def)

lemma map_vy_Vector_sub:
  "map vy (map (\<lambda>v. Vector (vec_sub v c)) vs) = map (\<lambda>x. binary32 (x - vy c)) (map vy vs)"
  by (cases c) (auto simp: comp_def)

lemma map_vz_Vector_sub:
  "map vz (map (\<lambda>v. Vector (vec_sub v c)) vs) = map (\<lambda>x. binary32 (x - vz c)) (map vz vs)"
  by (cases c) (auto simp: comp_def)

text \<open>The centre of the coordinates after the rounded centre has been subtracted from
  each of them in 32-bit floats.\<close>

lemma shifted_centre_bound:
  assumes ne: "xs \<noteq> []" and bound: "\<forall>x \<in> set xs. \<bar>x\<bar> \<le> R"
    and c: "c = binary32 (binary64 (binary64 (minimum xs + maximum xs) / 2))"
  shows "\<bar>(minimum (map (\<lambda>x. binary32 (x - c)) xs) + maximum (map (\<lambda>x. binary32 (x - c)) xs)) / 2\<bar>
           \<le> R / 2 ^ 20 + 1 / 2 ^ 147"
proof -
  define a where "a = minimum xs"
  define b where "b = maximum xs"
  define E where "E = R / 2 ^ 22 + 1 / 2 ^ 149"
  have a: "\<bar>a\<bar> \<le> R" using minimum_in [OF ne] bound by (simp add: a_def)
  have b: "\<bar>b\<bar> \<le> R" using maximum_in [OF ne] bound by (simp add: b_def)
  have R: "0 \<le> R" using a by linarith
  have cm: "\<bar>c - (a + b) / 2\<bar> \<le> R / 2 ^ 21 + 1 / 2 ^ 148"
    unfolding c a_def [symmetric] b_def [symmetric] by (rule rounded_centre_error [OF a b])
  have small: "R / 2 ^ 21 \<le> R" "(1::real) / 2 ^ 148 \<le> 1 / 2 ^ 126"
    using R by (simp_all add: field_simps)
  have close: "\<forall>x \<in> set xs. \<bar>binary32 (x - c) - (x - c)\<bar> \<le> E"
  proof
    fix x assume "x \<in> set xs"
    then have x: "\<bar>x\<bar> \<le> R" using bound by simp
    have "\<bar>x - c\<bar> \<le> \<bar>x\<bar> + \<bar>(a + b) / 2\<bar> + \<bar>c - (a + b) / 2\<bar>" by argo
    moreover have "\<bar>(a + b) / 2\<bar> \<le> R" using a b by argo
    ultimately have xc: "\<bar>x - c\<bar> \<le> 3 * R + 1 / 2 ^ 126" using x cm small by linarith
    have "\<bar>binary32 (x - c) - (x - c)\<bar> \<le> \<bar>x - c\<bar> / 2 ^ 24 + 1 / 2 ^ 150"
      by (rule binary32_error)
    also have "\<dots> \<le> (3 * R + 1 / 2 ^ 126) / 2 ^ 24 + 1 / 2 ^ 150"
      using xc by (simp add: divide_right_mono)
    also have "\<dots> \<le> E" using R by (simp add: E_def field_simps)
    finally show "\<bar>binary32 (x - c) - (x - c)\<bar> \<le> E" .
  qed
  have lo: "\<bar>minimum (map (\<lambda>x. binary32 (x - c)) xs) - (a - c)\<bar> \<le> E"
    using minimum_close [OF ne close] by (simp add: minimum_shift [OF ne] a_def)
  have hi: "\<bar>maximum (map (\<lambda>x. binary32 (x - c)) xs) - (b - c)\<bar> \<le> E"
    using maximum_close [OF ne close] by (simp add: maximum_shift [OF ne] b_def)
  have "\<bar>(minimum (map (\<lambda>x. binary32 (x - c)) xs) + maximum (map (\<lambda>x. binary32 (x - c)) xs)) / 2\<bar>
          \<le> \<bar>c - (a + b) / 2\<bar> + E"
    using lo hi by argo
  also have "\<dots> \<le> R / 2 ^ 21 + 1 / 2 ^ 148 + E" using cm by simp
  also have "\<dots> \<le> R / 2 ^ 20 + 1 / 2 ^ 147" using R by (simp add: E_def field_simps)
  finally show ?thesis .
qed

lemma centre_after_bound:
  assumes ne: "vs \<noteq> []" and bound: "\<forall>v \<in> set vs. \<bar>vx v\<bar> \<le> R \<and> \<bar>vy v\<bar> \<le> R"
    and c: "c = float_bottom_center vs" and ws: "ws = map (\<lambda>v. Vector (vec_sub v c)) vs"
  shows "\<bar>vx (bottom_center ws)\<bar> \<le> R / 2 ^ 20 + 1 / 2 ^ 147
         \<and> \<bar>vy (bottom_center ws)\<bar> \<le> R / 2 ^ 20 + 1 / 2 ^ 147"
proof -
  have nx: "map vx vs \<noteq> []" and ny: "map vy vs \<noteq> []" using ne by simp_all
  have bx: "\<forall>x \<in> set (map vx vs). \<bar>x\<bar> \<le> R" and bnd_y: "\<forall>y \<in> set (map vy vs). \<bar>y\<bar> \<le> R"
    using bound by simp_all
  have cx: "vx c = binary32 (binary64 (binary64 (minimum (map vx vs) + maximum (map vx vs)) / 2))"
    and cy: "vy c = binary32 (binary64 (binary64 (minimum (map vy vs) + maximum (map vy vs)) / 2))"
    by (simp_all add: c float_bottom_center_def)
  show ?thesis
    unfolding ws bottom_center_def vx.simps vy.simps map_vx_Vector_sub map_vy_Vector_sub
    using shifted_centre_bound [OF nx bx cx] shifted_centre_bound [OF ny bnd_y cy] by simp
qed


lemma translate_by_neg:
  assumes "is_float32 v"
  shows "mul_m4_v3 (Translation (vec_neg c)) v = Vector (vec_sub v c)"
  using assms by (cases c; cases v) (simp add: is_float32_def binary32_0)

lemma lowest_z_after:
  assumes ne: "vs \<noteq> []" and floats: "\<forall>v \<in> set vs. is_float32 v"
    and c: "c = float_bottom_center vs"
  shows "minimum (map vz (map (\<lambda>v. Vector (vec_sub v c)) vs)) = 0"
proof -
  define m where "m = minimum (map vz vs)"
  have nz: "map vz vs \<noteq> []" using ne by simp
  from minimum_in [OF nz] obtain w where w: "w \<in> set vs" "vz w = m"
    by (auto simp: m_def)
  have "is_float32 w" using floats w(1) by simp
  then have fm: "binary32 m = m" using w(2) by (cases w) (simp add: is_float32_def)
  have cz: "vz c = m" by (simp add: c float_bottom_center_def m_def [symmetric] fm)
  show ?thesis
    unfolding map_vz_Vector_sub cz
  proof (rule minimum_zero)
    show "map (\<lambda>x. binary32 (x - m)) (map vz vs) \<noteq> []" using ne by simp
    have "binary32 (vz w - m) = 0" by (simp add: w(2) binary32_0)
    then show "0 \<in> set (map (\<lambda>x. binary32 (x - m)) (map vz vs))"
      using w(1) by (force simp: image_iff)
    show "\<forall>x \<in> set (map (\<lambda>x. binary32 (x - m)) (map vz vs)). 0 \<le> x"
    proof
      fix x assume "x \<in> set (map (\<lambda>x. binary32 (x - m)) (map vz vs))"
      then obtain z where z: "z \<in> set (map vz vs)" "x = binary32 (z - m)" by auto
      have "m \<le> z" unfolding m_def using z(1) by (rule minimum_le)
      then show "0 \<le> x" unfolding z(2) by (intro binary32_nonneg) simp
    qed
  qed
qed

lemma exact_centre_after:
  assumes ne: "vs \<noteq> []" and c: "c = bottom_center vs"
    and exact: "\<forall>v \<in> set vs. is_float32 (vec_sub v c)"
  shows "bottom_center (map (\<lambda>v. Vector (vec_sub v c)) vs) = (0, 0, 0)"
proof -
  have eq: "map (\<lambda>v. Vector (vec_sub v c)) vs = map (\<lambda>v. vec_sub v c) vs"
    using exact by (intro map_cong refl) (simp add: is_float32_def)
  show ?thesis unfolding eq unfolding c by (rule bottom_center_after_shift [OF ne])
qed

lemma py_min_bbox: "py_min (map vz (bbox_of vs)) = Inr (minimum (map vz vs))"
  using minimum_le_maximum [of "map vz vs"]
  by (simp add: bbox_of_def box_corners_def min_def)

lemma centroid_bbox:
  "Vector (binary64 (binary64 (vx (bbox_of vs ! 0) + vx (bbox_of vs ! 6)) / 2),
           binary64 (binary64 (vy (bbox_of vs ! 0) + vy (bbox_of vs ! 2)) / 2),
           minimum (map vz vs)) = float_bottom_center vs"
  by (simp add: bbox_of_def box_corners_def float_bottom_center_def)

text \<open>The run of \<open>set_origin_at_bottom\<close> on an object whose vertices are 32-bit floats
  and whose \<^verbatim>\<open>bound_box\<close> is the box of its vertices.\<close>

lemma set_origin_at_bottom_run:
  assumes mode:
      "(if mode (objs s obj) \<noteq> ''OBJECT''
        then call_op h ''object.mode_set'' [(''mode'', PStr ''OBJECT'')] s
        else (Inr (), s)) = (Inr (), s0)"
    and applied:
      "call_op h ''object.transform_apply'' [(''rotation'', PBool True), (''scale'', PBool True)] s0
         = (Inr (), s1)"
    and box: "bound_box h s1 obj = bbox_of (vertices s1 obj)"
    and floats: "\<forall>v \<in> set (vertices s1 obj). is_float32 v"
    and c: "c = float_bottom_center (vertices s1 obj)"
  shows "set_origin_at_bottom h obj s =
           (Inr (matmul (matrix_world (objs s1 obj)) c),
            s1\<lparr>meshes := (meshes s1)
                   (data (objs s1 obj) := map (\<lambda>v. Vector (vec_sub v c)) (vertices s1 obj))\<rparr>)"
proof -
  have len: "\<not> length (bbox_of (vertices s1 obj)) \<le> 6"
    by (simp add: bbox_of_def box_corners_def)
  have tr: "map (mul_m4_v3 (Translation (vec_neg c))) (meshes s1 (data (objs s1 obj)))
              = map (\<lambda>v. Vector (vec_sub v c)) (vertices s1 obj)"
    unfolding vertices_def
    using floats by (intro map_cong refl translate_by_neg) (simp add: vertices_def)
  have tail: "(let bb = bound_box h s1 obj in
           (case py_min (map vz bb) of
              Inl e \<Rightarrow> (Inl e, s1)
            | Inr min_z \<Rightarrow>
                if length bb \<le> 6 then (Inl IndexError, s1)
                else
                  let centroid =
                        Vector (binary64 (binary64 (vx (bb ! 0) + vx (bb ! 6)) / 2),
                                binary64 (binary64 (vy (bb ! 0) + vy (bb ! 2)) / 2),
                                min_z);
                      world_new_origin = matmul (matrix_world (objs s1 obj)) centroid
                  in (Inr world_new_origin,
                      data_transform (data (objs s1 obj)) (Translation (vec_neg centroid)) s1)))
        = (Inr (matmul (matrix_world (objs s1 obj)) c),
           s1\<lparr>meshes := (meshes s1)
                  (data (objs s1 obj) := map (\<lambda>v. Vector (vec_sub v c)) (vertices s1 obj))\<rparr>)"
    unfolding box Let_def py_min_bbox sum.case if_not_P [OF len] centroid_bbox c [symmetric]
      data_transform_def tr ..
  show ?thesis
  proof (cases "mode (objs s obj) = ''OBJECT''")
    case True
    with mode have "s0 = s" by simp
    with True applied tail show ?thesis
      by (simp add: set_origin_at_bottom_def and_then_def)
  next
    case False
    with mode have "call_op h ''object.mode_set'' [(''mode'', PStr ''OBJECT'')] s = (Inr (), s0)"
      by simp
    with False applied tail show ?thesis
      by (simp add: set_origin_at_bottom_def and_then_def)
  qed
qed

text \<open>
  Claim C5. Let \<open>s1\<close> be the state after the mode switch (when the object is not in
  object mode) and the host's \<^verbatim>\<open>transform_apply\<close>, both returned normally, on an object
  with at least one vertex, whose coordinates are 32-bit floats and whose
  \<^verbatim>\<open>bound_box\<close> is the axis-aligned box of its vertices. Let \<open>c\<close> be the point of
  line 107: (horizontal centre x, horizontal centre y, lowest z) of that box, the two
  centres computed in Python floats and the point stored as 32-bit floats. Then
  \<open>set_origin_at_bottom\<close> replaces every vertex \<open>v\<close> of the object's datablock by
  \<open>v - c\<close>, each coordinate rounded to a 32-bit float, and changes nothing else; and the
  value returned is \<open>matrix_world @ c\<close> with the world matrix the object has in \<open>s1\<close>,
  before the translation. Afterwards the lowest z of the box of the vertices is exactly 0.
  Its horizontal centre is (0, 0) up to rounding: when \<open>R\<close> bounds the absolute values of
  the x and y coordinates of the vertices, each of its two coordinates is at most
  \<open>R / 2 ^ 20 + 1 / 2 ^ 147\<close> in absolute value; and it is exactly (0, 0) when \<open>c\<close> is
  the exact bottom centre and the differences \<open>v - c\<close> are 32-bit floats.
\<close>

theorem set_origin_at_bottom_moves_origin:
  assumes mode:
      "(if mode (objs s obj) \<noteq> ''OBJECT''
        then call_op h ''object.mode_set'' [(''mode'', PStr ''OBJECT'')] s
        else (Inr (), s)) = (Inr (), s0)"
    and applied:
      "call_op h ''object.transform_apply'' [(''rotation'', PBool True), (''scale'', PBool True)] s0
         = (Inr (), s1)"
    and verts: "vertices s1 obj \<noteq> []"
    and box: "bound_box h s1 obj = bbox_of (vertices s1 obj)"
    and floats: "\<forall>v \<in> set (vertices s1 obj). is_float32 v"
    and c: "c = float_bottom_center (vertices s1 obj)"
    and s2: "s2 = snd (set_origin_at_bottom h obj s)"
  shows "set_origin_at_bottom h obj s =
           (Inr (matmul (matrix_world (objs s1 obj)) c),
            s1\<lparr>meshes := (meshes s1)
                   (data (objs s1 obj) := map (\<lambda>v. Vector (vec_sub v c)) (vertices s1 obj))\<rparr>)
         \<and> vertices s2 obj = map (\<lambda>v. Vector (vec_sub v c)) (vertices s1 obj)
         \<and> py_min (map vz (bbox_of (vertices s2 obj))) = Inr 0
         \<and> ((\<forall>v \<in> set (vertices s1 obj). \<bar>vx v\<bar> \<le> R \<and> \<bar>vy v\<bar> \<le> R) \<longrightarrow>
               \<bar>vx (bottom_center (vertices s2 obj))\<bar> \<le> R / 2 ^ 20 + 1 / 2 ^ 147
               \<and> \<bar>vy (bottom_center (vertices s2 obj))\<bar> \<le> R / 2 ^ 20 + 1 / 2 ^ 147)
         \<and> (c = bottom_center (vertices s1 obj)
               \<and> (\<forall>v \<in> set (vertices s1 obj). is_float32 (vec_sub v c)) \<longrightarrow>
             bottom_center (vertices s2 obj) = (0, 0, 0))"
proof -
  have run: "set_origin_at_bottom h obj s =
           (Inr (matmul (matrix_world (objs s1 obj)) c),
            s1\<lparr>meshes := (meshes s1)
                   (data (objs s1 obj) := map (\<lambda>v. Vector (vec_sub v c)) (vertices s1 obj))\<rparr>)"
    by (rule set_origin_at_bottom_run [OF mode applied box floats c])
  then have v2: "vertices s2 obj = map (\<lambda>v. Vector (vec_sub v c)) (vertices s1 obj)"
    by (simp add: s2 vertices_def)
  have "py_min (map vz (bbox_of (vertices s2 obj))) = Inr (minimum (map vz (vertices s2 obj)))"
    by (rule py_min_bbox)
  also have "minimum (map vz (vertices s2 obj)) = 0"
    unfolding v2 by (rule lowest_z_after [OF verts floats c])
  finally have low: "py_min (map vz (bbox_of (vertices s2 obj))) = Inr 0" .
  have near: "\<bar>vx (bottom_center (vertices s2 obj))\<bar> \<le> R / 2 ^ 20 + 1 / 2 ^ 147
               \<and> \<bar>vy (bottom_center (vertices s2 obj))\<bar> \<le> R / 2 ^ 20 + 1 / 2 ^ 147"
    if "\<forall>v \<in> set (vertices s1 obj). \<bar>vx v\<bar> \<le> R \<and> \<bar>vy v\<bar> \<le> R"
    by (rule centre_after_bound [OF verts that c v2])
  have exact: "bottom_center (vertices s2 obj) = (0, 0, 0)"
    if "c = bottom_center (vertices s1 obj)
        \<and> (\<forall>v \<in> set (vertices s1 obj). is_float32 (vec_sub v c))"
    unfolding v2 using that exact_centre_after [OF verts, of c] by blast
  from run v2 low near exact show ?thesis by blast
qed

text \<open>Rock has the vertices (0, 0, 0) and (2, 4, 6) and sits at (1, 2, 3): the point is
  (1, 2, 0), the vertices become (-1, -2, 0) and (1, 2, 6), and (2, 4, 3) is returned.
  Nothing is rounded here.\<close>

theorem set_origin_at_bottom_moves_origin_witness:
  "vertices lone_doc ''Rock'' = [(0, 0, 0), (2, 4, 6)]
   \<and> float_bottom_center (vertices lone_doc ''Rock'') = (1, 2, 0)
   \<and> matrix_world (objs lone_doc ''Rock'') = Translation (1, 2, 3)
   \<and> fst (set_origin_at_bottom demo_host ''Rock'' lone_doc) = Inr (2, 4, 3)
   \<and> vertices (snd (set_origin_at_bottom demo_host ''Rock'' lone_doc)) ''Rock''
        = [(- 1, - 2, 0), (1, 2, 6)]
   \<and> py_min (map vz (bbox_of
        (vertices (snd (set_origin_at_bottom demo_host ''Rock'' lone_doc)) ''Rock''))) = Inr 0
   \<and> bottom_center (vertices (snd (set_origin_at_bottom demo_host ''Rock'' lone_doc)) ''Rock'')
        = (0, 0, 0)"
proof -
  let ?s1 = "lone_doc\<lparr>calls := [(''object.transform_apply'',
                [(''rotation'', PBool True), (''scale'', PBool True)])]\<rparr>"
  let ?s2 = "snd (set_origin_at_bottom demo_host ''Rock'' lone_doc)"
  have mode: "(if mode (objs lone_doc ''Rock'') \<noteq> ''OBJECT''
        then call_op demo_host ''object.mode_set'' [(''mode'', PStr ''OBJECT'')] lone_doc
        else (Inr (), lone_doc)) = (Inr (), lone_doc)"
    by (simp add: demo_defs)
  have applied: "call_op demo_host ''object.transform_apply''
        [(''rotation'', PBool True), (''scale'', PBool True)] lone_doc = (Inr (), ?s1)"
    by (simp add: call_op_def demo_defs)
  have v: "vertices ?s1 ''Rock'' = [(0, 0, 0), (2, 4, 6)]" "vertices lone_doc ''Rock'' = [(0, 0, 0), (2, 4, 6)]"
    by (simp_all add: vertices_def demo_defs)
  then have verts: "vertices ?s1 ''Rock'' \<noteq> []" by simp
  have box: "bound_box demo_host ?s1 ''Rock'' = bbox_of (vertices ?s1 ''Rock'')"
    by (simp add: demo_host_def v)
  have floats: "\<forall>v \<in> set (vertices ?s1 ''Rock''). is_float32 v"
    by (simp add: v is_float32_def float_simps)
  have fc: "float_bottom_center [(0, 0, 0), (2, 4, 6)] = (1, 2, 0)"
    by (simp add: float_bottom_center_def minimum_def maximum_def float_simps)
  have bc: "bottom_center [(0, 0, 0), (2, 4, 6)] = (1, 2, 0)"
    by (simp add: bottom_center_def minimum_def maximum_def)
  have c: "(1, 2, 0) = float_bottom_center (vertices ?s1 ''Rock'')"
    by (simp add: v fc)
  have m: "matrix_world (objs ?s1 ''Rock'') = Translation (1, 2, 3)"
    "matrix_world (objs lone_doc ''Rock'') = Translation (1, 2, 3)"
    by (simp_all add: demo_defs)
  have prod: "matmul (Translation (1, 2, 3)) (1, 2, 0) = (2, 4, 3)"
    by (simp add: float_simps)
  have exact: "(1, 2, 0) = bottom_center (vertices ?s1 ''Rock'')
        \<and> (\<forall>v \<in> set (vertices ?s1 ''Rock''). is_float32 (vec_sub v (1, 2, 0)))"
    by (simp add: v bc is_float32_def float_simps)
  have small: "\<forall>v \<in> set (vertices ?s1 ''Rock''). \<bar>vx v\<bar> \<le> 4 \<and> \<bar>vy v\<bar> \<le> 4"
    by (simp add: v)
  note T = set_origin_at_bottom_moves_origin [OF mode applied verts box floats c refl, of 4]
  from T have "set_origin_at_bottom demo_host ''Rock'' lone_doc =
      (Inr (matmul (matrix_world (objs ?s1 ''Rock'')) (1, 2, 0)),
       ?s1\<lparr>meshes := (meshes ?s1)
              (data (objs ?s1 ''Rock'') := map (\<lambda>v. Vector (vec_sub v (1, 2, 0))) (vertices ?s1 ''Rock''))\<rparr>)"
    by (rule conjunct1)
  then have f: "fst (set_origin_at_bottom demo_host ''Rock'' lone_doc) = Inr (2, 4, 3)"
    unfolding m prod by simp
  from T have w: "vertices ?s2 ''Rock'' = map (\<lambda>v. Vector (vec_sub v (1, 2, 0))) (vertices ?s1 ''Rock'')"
    by (rule conjunct1 [OF conjunct2])
  have w': "vertices ?s2 ''Rock'' = [(- 1, - 2, 0), (1, 2, 6)]"
    unfolding w v by (simp add: float_simps)
  from T have low: "py_min (map vz (bbox_of (vertices ?s2 ''Rock''))) = Inr 0"
    by (rule conjunct1 [OF conjunct2 [OF conjunct2]])
  from T small have "\<bar>vx (bottom_center (vertices ?s2 ''Rock''))\<bar> \<le> 4 / 2 ^ 20 + 1 / 2 ^ 147"
    by blast
  from T exact have z: "bottom_center (vertices ?s2 ''Rock'') = (0, 0, 0)"
    by blast
  from f w' low z show ?thesis
    by (simp add: v fc m)
qed

text \<open>The claim without its conditions does not hold. With the x coordinates at the
  32-bit floats nearest to 0.1 and 0.7, line 107 rounds the centre to the float nearest
  to 0.4, the two differences are rounded again, and the horizontal centre of the new
  box is at \<open>- 1 / 2 ^ 26\<close>, not at 0. And on a mesh with no vertex the host's box is
  the default one from -1 to 1: the call returns, nothing is translated, and the lowest z
  of the box is still -1.\<close>

lemma chip_sum: "binary64 (13421773 / 2 ^ 27 + 11744051 / 2 ^ 24) = 107374181 / 2 ^ 27"
proof -
  have "(13421773::real) / 2 ^ 27 + 11744051 / 2 ^ 24 = real_of_int 107374181 / 2 ^ 27" by simp
  then show ?thesis using binary64_dyadic [of 107374181 27] by simp
qed

lemma chip_half: "binary64 (107374181 / 2 ^ 27 / 2) = 107374181 / 2 ^ 28"
proof -
  have "(107374181::real) / 2 ^ 27 / 2 = real_of_int 107374181 / 2 ^ 28" by simp
  then show ?thesis using binary64_dyadic [of 107374181 28] by simp
qed

lemma chip_round: "binary32 (107374181 / 2 ^ 28) = 13421773 / 2 ^ 25"
  by code_simp

lemma chip_low: "binary32 (13421773 / 2 ^ 27 - 13421773 / 2 ^ 25) = - 10066330 / 2 ^ 25"
  by code_simp

lemma chip_high: "binary32 (11744051 / 2 ^ 24 - 13421773 / 2 ^ 25) = 10066329 / 2 ^ 25"
proof -
  have "(11744051::real) / 2 ^ 24 - 13421773 / 2 ^ 25 = real_of_int 10066329 / 2 ^ 25" by simp
  then show ?thesis using binary32_dyadic [of 10066329 25] by simp
qed

lemma chip_small:
  "binary64 (0 + 1) = 1" "binary64 (1 / 2) = 1 / 2" "binary32 (1 / 2) = 1 / 2"
  "binary32 (0 - 1 / 2) = - 1 / 2" "binary32 (1 - 1 / 2) = 1 / 2"
  "binary32 (0 - 0) = 0" "binary32 (2 - 0) = 2"
  using binary64_dyadic [of 1 1] binary32_dyadic [of 1 1] binary32_dyadic [of "- 1" 1]
  by (simp_all add: float_simps)

lemma chip_x:
  "binary32 (13421773 / 2 ^ 27) = 13421773 / 2 ^ 27"
  "binary32 (11744051 / 2 ^ 24) = 11744051 / 2 ^ 24"
  using binary32_dyadic [of 13421773 27] binary32_dyadic [of 11744051 24] by simp_all

lemma chip_floats: "\<forall>v \<in> set chip_vertices. is_float32 v"
  unfolding chip_vertices_def list.set ball_simps is_float32_def Vector.simps chip_x
    binary32_0 binary32_1
  by (simp add: float_simps)

lemma chip_centre: "float_bottom_center chip_vertices = (13421773 / 2 ^ 25, 1 / 2, 0)"
proof -
  have mx: "minimum (map vx chip_vertices) = 13421773 / 2 ^ 27"
    "maximum (map vx chip_vertices) = 11744051 / 2 ^ 24"
    "minimum (map vy chip_vertices) = 0"
    "maximum (map vy chip_vertices) = 1"
    "minimum (map vz chip_vertices) = 0"
    by (simp_all add: chip_vertices_def minimum_def maximum_def)
  show ?thesis
    unfolding float_bottom_center_def mx chip_sum chip_half chip_small Vector.simps chip_round
      binary32_0 ..
qed

lemma chip_after:
  "map (\<lambda>v. Vector (vec_sub v (13421773 / 2 ^ 25, 1 / 2, 0))) chip_vertices
     = [(- 10066330 / 2 ^ 25, - 1 / 2, 0), (10066329 / 2 ^ 25, 1 / 2, 2)]"
  unfolding chip_vertices_def list.map vec_sub.simps Vector.simps chip_low chip_high chip_small ..

theorem bottom_centre_off_origin:
  "vertices chip_doc ''Rock'' = [(13421773 / 2 ^ 27, 0, 0), (11744051 / 2 ^ 24, 1, 2)]
   \<and> is_float32 (13421773 / 2 ^ 27, 0, 0) \<and> is_float32 (11744051 / 2 ^ 24, 1, 2)
   \<and> bound_box demo_host chip_doc ''Rock'' = bbox_of (vertices chip_doc ''Rock'')
   \<and> vertices (snd (set_origin_at_bottom demo_host ''Rock'' chip_doc)) ''Rock''
        = [(- 10066330 / 2 ^ 25, - 1 / 2, 0), (10066329 / 2 ^ 25, 1 / 2, 2)]
   \<and> bottom_center (vertices (snd (set_origin_at_bottom demo_host ''Rock'' chip_doc)) ''Rock'')
        = (- 1 / 2 ^ 26, 0, 0)
   \<and> vertices bare_doc ''Rock'' = []
   \<and> fst (set_origin_at_bottom demo_host ''Rock'' bare_doc) = Inr (1, 2, 2)
   \<and> vertices (snd (set_origin_at_bottom demo_host ''Rock'' bare_doc)) ''Rock'' = []
   \<and> py_min (map vz (bound_box demo_host
        (snd (set_origin_at_bottom demo_host ''Rock'' bare_doc)) ''Rock'')) = Inr (- 1)"
proof -
  let ?s1 = "chip_doc\<lparr>calls := [(''object.transform_apply'',
                [(''rotation'', PBool True), (''scale'', PBool True)])]\<rparr>"
  let ?s2 = "snd (set_origin_at_bottom demo_host ''Rock'' chip_doc)"
  have mode: "(if mode (objs chip_doc ''Rock'') \<noteq> ''OBJECT''
        then call_op demo_host ''object.mode_set'' [(''mode'', PStr ''OBJECT'')] chip_doc
        else (Inr (), chip_doc)) = (Inr (), chip_doc)"
    by (simp add: demo_defs chip_doc_def)
  have applied: "call_op demo_host ''object.transform_apply''
        [(''rotation'', PBool True), (''scale'', PBool True)] chip_doc = (Inr (), ?s1)"
    by (simp add: call_op_def demo_defs chip_doc_def)
  have v: "vertices ?s1 ''Rock'' = chip_vertices" "vertices chip_doc ''Rock'' = chip_vertices"
    by (simp_all add: vertices_def demo_defs chip_doc_def)
  have ne: "chip_vertices \<noteq> []" by (simp add: chip_vertices_def)
  have box: "bound_box demo_host ?s1 ''Rock'' = bbox_of (vertices ?s1 ''Rock'')"
    "bound_box demo_host chip_doc ''Rock'' = bbox_of (vertices chip_doc ''Rock'')"
    using ne by (simp_all add: demo_host_def v)
  have floats: "\<forall>v \<in> set (vertices ?s1 ''Rock''). is_float32 v"
    unfolding v by (rule chip_floats)
  have c: "(13421773 / 2 ^ 25, 1 / 2, 0) = float_bottom_center (vertices ?s1 ''Rock'')"
    unfolding v chip_centre ..
  have "vertices ?s2 ''Rock''
          = map (\<lambda>v. Vector (vec_sub v (13421773 / 2 ^ 25, 1 / 2, 0))) (vertices ?s1 ''Rock'')"
    unfolding set_origin_at_bottom_run [OF mode applied box(1) floats c]
    by (simp add: vertices_def)
  then have after: "vertices ?s2 ''Rock''
          = [(- 10066330 / 2 ^ 25, - 1 / 2, 0), (10066329 / 2 ^ 25, 1 / 2, 2)]"
    unfolding v chip_after .
  have centre: "bottom_center (vertices ?s2 ''Rock'') = (- 1 / 2 ^ 26, 0, 0)"
    unfolding after by (simp add: bottom_center_def minimum_def maximum_def)
  have fl: "is_float32 (13421773 / 2 ^ 27, 0, 0) \<and> is_float32 (11744051 / 2 ^ 24, 1, 2)"
    using chip_floats unfolding chip_vertices_def list.set ball_simps by blast
  have chip: "vertices chip_doc ''Rock'' = [(13421773 / 2 ^ 27, 0, 0), (11744051 / 2 ^ 24, 1, 2)]"
    unfolding v chip_vertices_def ..
  have bare: "vertices bare_doc ''Rock'' = []
     \<and> fst (set_origin_at_bottom demo_host ''Rock'' bare_doc) = Inr (1, 2, 2)
     \<and> vertices (snd (set_origin_at_bottom demo_host ''Rock'' bare_doc)) ''Rock'' = []
     \<and> py_min (map vz (bound_box demo_host
          (snd (set_origin_at_bottom demo_host ''Rock'' bare_doc)) ''Rock'')) = Inr (- 1)"
    by (simp add: run_defs demo_defs bare_doc_def Let_def float_simps)
  from chip fl box(2) after centre bare show ?thesis by blast
qed


section \<open>The restore phase\<close>

subsection \<open>What the snapshot holds\<close>

lemma fold_store_child_keeps:
  "original_matrices (fold (store_child s) cs snap) = original_matrices snap"
  "original_vertices (fold (store_child s) cs snap) = original_vertices snap"
  by (induction cs arbitrary: snap) (simp_all add: store_child_def)

lemma snapshot_matrices:
  "map_of (original_matrices (fold (store_object s) xs snap)) n =
     (if n \<in> set xs \<and> otype (objs s n) = ''MESH'' then Some (matrix_world (objs s n))
      else map_of (original_matrices snap) n)"
  by (induction xs arbitrary: snap)
     (auto simp: store_object_def fold_store_child_keeps update_conv')

lemma snapshot_vertices:
  "map_of (original_vertices (fold (store_object s) xs snap)) n =
     (if n \<in> set xs \<and> otype (objs s n) = ''MESH'' then Some (vertices s n)
      else map_of (original_vertices snap) n)"
  by (induction xs arbitrary: snap)
     (auto simp: store_object_def fold_store_child_keeps update_conv')

lemma set_update_cases:
  "p \<in> set (AList.update k v al) \<Longrightarrow> p = (k, v) \<or> p \<in> set al"
  by (induction al) (auto split: if_splits)

lemma fold_store_child_entries:
  "p \<in> set (original_empty_transforms (fold (store_child s) cs snap)) \<Longrightarrow>
   p \<in> set (original_empty_transforms snap) \<or>
   (otype (objs s (fst p)) = ''EMPTY'' \<and> snd p = matrix_world (objs s (fst p)) \<and> fst p \<in> set cs)"
proof (induction cs arbitrary: snap)
  case Nil
  then show ?case by simp
next
  case (Cons c cs)
  from Cons.IH [of "store_child s c snap"] Cons.prems
  have "p \<in> set (original_empty_transforms (store_child s c snap)) \<or>
        (otype (objs s (fst p)) = ''EMPTY'' \<and> snd p = matrix_world (objs s (fst p)) \<and> fst p \<in> set cs)"
    by simp
  then show ?case
    by (auto simp: store_child_def dest!: set_update_cases split: if_splits)
qed

lemma fold_store_child_keys:
  "k \<in> fst ` set (original_empty_transforms snap) \<or> (k \<in> set cs \<and> otype (objs s k) = ''EMPTY'') \<Longrightarrow>
   k \<in> fst ` set (original_empty_transforms (fold (store_child s) cs snap))"
proof (induction cs arbitrary: snap)
  case Nil
  then show ?case by simp
next
  case (Cons c cs)
  have "k \<in> fst ` set (original_empty_transforms (store_child s c snap)) \<or>
        (k \<in> set cs \<and> otype (objs s k) = ''EMPTY'')"
  proof (cases "k \<in> set cs \<and> otype (objs s k) = ''EMPTY''")
    case True
    then show ?thesis by simp
  next
    case False
    with Cons.prems have "k \<in> fst ` set (original_empty_transforms snap) \<or>
        (k = c \<and> otype (objs s c) = ''EMPTY'')"
      by auto
    then have "k \<in> fst ` set (original_empty_transforms (store_child s c snap))"
      unfolding store_child_def by (auto simp: dom_update)
    then show ?thesis by simp
  qed
  from Cons.IH [OF this] show ?case by simp
qed

lemma fold_store_child_empties:
  "original_empty_transforms (fold (store_child s) cs snap) =
   fold (\<lambda>c al. if otype (objs s c) = ''EMPTY'' then AList.update c (matrix_world (objs s c)) al else al)
     cs (original_empty_transforms snap)"
  by (induction cs arbitrary: snap) (simp_all add: store_child_def)

lemma store_object_empties:
  "original_empty_transforms (store_object s obj snap) =
   original_empty_transforms (fold (store_child s) (children s obj) snap)"
  unfolding store_object_def fold_store_child_empties by simp

lemma snapshot_entries:
  "p \<in> set (original_empty_transforms (fold (store_object s) xs snap)) \<Longrightarrow>
   p \<in> set (original_empty_transforms snap) \<or> empty_entry s xs p"
proof (induction xs arbitrary: snap)
  case Nil
  then show ?case by simp
next
  case (Cons x xs)
  from Cons.IH [of "store_object s x snap"] Cons.prems
  consider "p \<in> set (original_empty_transforms (store_object s x snap))" | "empty_entry s xs p"
    by auto
  then show ?case
  proof cases
    case 1
    then have "p \<in> set (original_empty_transforms snap) \<or>
      (otype (objs s (fst p)) = ''EMPTY'' \<and> snd p = matrix_world (objs s (fst p)) \<and>
       fst p \<in> set (children s x))"
      unfolding store_object_empties by (rule fold_store_child_entries)
    then show ?thesis by (auto simp: empty_entry_def)
  next
    case 2
    then show ?thesis by (auto simp: empty_entry_def)
  qed
qed

lemma snapshot_keys:
  "k \<in> fst ` set (original_empty_transforms snap) \<or>
   (otype (objs s k) = ''EMPTY'' \<and> (\<exists>obj \<in> set xs. k \<in> set (children s obj))) \<Longrightarrow>
   k \<in> fst ` set (original_empty_transforms (fold (store_object s) xs snap))"
proof (induction xs arbitrary: snap)
  case Nil
  then show ?case by simp
next
  case (Cons x xs)
  have "k \<in> fst ` set (original_empty_transforms (store_object s x snap)) \<or>
        (otype (objs s k) = ''EMPTY'' \<and> (\<exists>obj \<in> set xs. k \<in> set (children s obj)))"
  proof (cases "otype (objs s k) = ''EMPTY'' \<and> (\<exists>obj \<in> set xs. k \<in> set (children s obj))")
    case True
    then show ?thesis by simp
  next
    case False
    with Cons.prems have "k \<in> fst ` set (original_empty_transforms snap) \<or>
        (k \<in> set (children s x) \<and> otype (objs s k) = ''EMPTY'')"
      by auto
    then have "k \<in> fst ` set (original_empty_transforms (store_object s x snap))"
      unfolding store_object_empties by (rule fold_store_child_keys)
    then show ?thesis by simp
  qed
  from Cons.IH [OF this] show ?case by simp
qed

subsection \<open>What the restore loops do\<close>

lemma for_each_establishes:
  assumes "I s" and "\<forall>y \<in> A. Q y s"
    and "\<And>x t. x \<in> set xs \<Longrightarrow> I t \<Longrightarrow>
           \<exists>t'. body x t = (Inr (), t') \<and> I t' \<and> Q x t' \<and> (\<forall>y. Q y t \<longrightarrow> Q y t')"
  shows "\<exists>t. for_each body xs s = (Inr (), t) \<and> I t \<and> (\<forall>x \<in> set xs \<union> A. Q x t)"
  using assms
proof (induction xs arbitrary: s A)
  case Nil
  then show ?case by simp
next
  case (Cons x xs)
  have "x \<in> set (x # xs)" by simp
  from Cons.prems(3) [OF this Cons.prems(1)]
  obtain t' where t': "body x s = (Inr (), t')" "I t'" "Q x t'" "\<forall>y. Q y s \<longrightarrow> Q y t'"
    by blast
  from t'(3,4) Cons.prems(2) have pre: "\<forall>y \<in> insert x A. Q y t'"
    by blast
  have step: "\<And>y t. y \<in> set xs \<Longrightarrow> I t \<Longrightarrow>
           \<exists>t'. body y t = (Inr (), t') \<and> I t' \<and> Q y t' \<and> (\<forall>z. Q z t \<longrightarrow> Q z t')"
    using Cons.prems(3) by simp
  from Cons.IH [of t' "insert x A", OF t'(2) pre step]
  obtain t where "for_each body xs t' = (Inr (), t)" "I t" "\<forall>y \<in> set xs \<union> insert x A. Q y t"
    by blast
  with t'(1) show ?case by auto
qed

lemma set_matrix_world_fields:
  "obj_names (set_matrix_world h n M t) = obj_names t"
  "meshes (set_matrix_world h n M t) = meshes t"
  "otype (objs (set_matrix_world h n M t) k) = otype (objs t k)"
  "data (objs (set_matrix_world h n M t) k) = data (objs t k)"
  "matrix_world (objs (set_matrix_world h n M t) k) = (if k = n then M else matrix_world (objs t k))"
  by (simp_all add: set_matrix_world_def)

lemma restore_object_mesh:
  assumes "map_of (original_vertices snap) obj = Some vs"
    and "map_of (original_matrices snap) obj = Some M"
    and "otype (objs t obj) = ''MESH''"
    and "length (vertices t obj) = length vs"
  shows "restore_object h snap obj t =
           (Inr (), set_matrix_world h obj M (t\<lparr>meshes := (meshes t)(data (objs t obj) := vs)\<rparr>))"
  using assms by (simp add: restore_object_def and_then_def restore_vertices_def)

lemma restore_object_skip:
  assumes "map_of (original_vertices snap) obj = None"
    and "map_of (original_matrices snap) obj = None"
  shows "restore_object h snap obj t = (Inr (), t)"
  using assms by (simp add: restore_object_def and_then_def)

lemma restore_object_step_other:
  assumes x: "x \<in> set sel" and nm: "otype (objs s1 x) \<noteq> ''MESH''"
  shows "restore_object h (store_original_state s1 sel) x t = (Inr (), t)"
proof -
  from x nm have "map_of (original_vertices (store_original_state s1 sel)) x = None"
    by (simp add: store_original_state_def snapshot_vertices empty_snapshot_def)
  moreover from x nm have "map_of (original_matrices (store_original_state s1 sel)) x = None"
    by (simp add: store_original_state_def snapshot_matrices empty_snapshot_def)
  ultimately show ?thesis by (rule restore_object_skip)
qed

lemma restore_object_step_mesh:
  assumes x: "x \<in> set sel" and m: "otype (objs s1 x) = ''MESH''" and k: "mesh_kept s1 t x"
  shows "restore_object h (store_original_state s1 sel) x t =
           (Inr (), set_matrix_world h x (matrix_world (objs s1 x))
                      (t\<lparr>meshes := (meshes t)(data (objs s1 x) := vertices s1 x)\<rparr>))"
proof -
  from x m have v: "map_of (original_vertices (store_original_state s1 sel)) x = Some (vertices s1 x)"
    by (simp add: store_original_state_def snapshot_vertices)
  from x m have mm: "map_of (original_matrices (store_original_state s1 sel)) x
      = Some (matrix_world (objs s1 x))"
    by (simp add: store_original_state_def snapshot_matrices)
  from k have a: "otype (objs t x) = ''MESH''" and b: "length (vertices t x) = length (vertices s1 x)"
    and c: "data (objs t x) = data (objs s1 x)"
    by (simp_all add: mesh_kept_def)
  from restore_object_mesh [OF v mm a b] show ?thesis
    unfolding c .
qed

lemma vertices_after_restore:
  "vertices (set_matrix_world h x M (t\<lparr>meshes := (meshes t)(d := vs)\<rparr>)) y =
     (if data (objs t y) = d then vs else vertices t y)"
  by (simp add: vertices_def set_matrix_world_def)

lemma kept_after_restore:
  assumes kx: "mesh_kept s1 t x" and ky: "mesh_kept s1 t y"
  shows "mesh_kept s1 (set_matrix_world h x M
           (t\<lparr>meshes := (meshes t)(data (objs s1 x) := vertices s1 x)\<rparr>)) y"
proof -
  from ky have d: "data (objs t y) = data (objs s1 y)" and l: "length (vertices t y) = length (vertices s1 y)"
    and ty: "otype (objs t y) = ''MESH''"
    by (simp_all add: mesh_kept_def)
  have "length (if data (objs t y) = data (objs s1 x) then vertices s1 x else vertices t y)
        = length (vertices s1 y)"
    using d l by (simp add: vertices_def)
  moreover have "otype (objs (set_matrix_world h x M
           (t\<lparr>meshes := (meshes t)(data (objs s1 x) := vertices s1 x)\<rparr>)) y) = ''MESH''"
    using ty by (simp add: set_matrix_world_fields)
  moreover have "data (objs (set_matrix_world h x M
           (t\<lparr>meshes := (meshes t)(data (objs s1 x) := vertices s1 x)\<rparr>)) y) = data (objs s1 y)"
    using d by (simp add: set_matrix_world_fields)
  ultimately show ?thesis
    unfolding mesh_kept_def vertices_after_restore by simp
qed

lemma restored_after_restore:
  assumes kx: "mesh_kept s1 t x" and ky: "mesh_kept s1 t y"
    and r: "y = x \<or> mesh_restored s1 t y"
  shows "mesh_restored s1 (set_matrix_world h x (matrix_world (objs s1 x))
           (t\<lparr>meshes := (meshes t)(data (objs s1 x) := vertices s1 x)\<rparr>)) y"
proof -
  from ky have d: "data (objs t y) = data (objs s1 y)" by (simp add: mesh_kept_def)
  from kx have dx: "data (objs t x) = data (objs s1 x)" by (simp add: mesh_kept_def)
  have v: "(if data (objs t y) = data (objs s1 x) then vertices s1 x else vertices t y) = vertices s1 y"
  proof (cases "data (objs t y) = data (objs s1 x)")
    case True
    with d show ?thesis by (simp add: vertices_def)
  next
    case False
    with dx have "y \<noteq> x" by auto
    with r False show ?thesis by (simp add: mesh_restored_def)
  qed
  have m: "matrix_world (objs (set_matrix_world h x (matrix_world (objs s1 x))
           (t\<lparr>meshes := (meshes t)(data (objs s1 x) := vertices s1 x)\<rparr>)) y) = matrix_world (objs s1 y)"
  proof (cases "y = x")
    case True
    then show ?thesis by (simp add: set_matrix_world_fields)
  next
    case False
    with r show ?thesis by (simp add: set_matrix_world_fields mesh_restored_def)
  qed
  show ?thesis
    unfolding mesh_restored_def vertices_after_restore v m by simp
qed

lemma restore_step:
  assumes x: "x \<in> set sel" and I: "restore_inv s1 names sel t"
  shows "\<exists>t'. restore_object h (store_original_state s1 sel) x t = (Inr (), t')
           \<and> restore_inv s1 names sel t' \<and> restore_done s1 sel x t'
           \<and> (\<forall>y. restore_done s1 sel y t \<longrightarrow> restore_done s1 sel y t')"
proof (cases "otype (objs s1 x) = ''MESH''")
  case False
  from restore_object_step_other [OF x False]
  have "restore_object h (store_original_state s1 sel) x t = (Inr (), t)" .
  moreover have "restore_done s1 sel x t"
    using False by (simp add: restore_done_def)
  ultimately show ?thesis using I by blast
next
  case True
  from I x True have kx: "mesh_kept s1 t x"
    by (simp add: restore_inv_def)
  define t' where "t' = set_matrix_world h x (matrix_world (objs s1 x))
                      (t\<lparr>meshes := (meshes t)(data (objs s1 x) := vertices s1 x)\<rparr>)"
  have run: "restore_object h (store_original_state s1 sel) x t = (Inr (), t')"
    unfolding t'_def by (rule restore_object_step_mesh [OF x True kx])
  have kept: "mesh_kept s1 t' y" if "mesh_kept s1 t y" for y
    unfolding t'_def by (rule kept_after_restore [OF kx that])
  have restored: "mesh_restored s1 t' y" if "mesh_kept s1 t y" "y = x \<or> mesh_restored s1 t y" for y
    unfolding t'_def by (rule restored_after_restore [OF kx that])
  have names: "obj_names t' = names"
    using I by (simp add: t'_def set_matrix_world_fields restore_inv_def)
  have I': "restore_inv s1 names sel t'"
    unfolding restore_inv_def
  proof (intro conjI ballI impI)
    show "obj_names t' = names" by (rule names)
  next
    fix obj assume "obj \<in> set sel" "otype (objs s1 obj) = ''MESH''"
    with I have "mesh_kept s1 t obj" by (simp add: restore_inv_def)
    then show "mesh_kept s1 t' obj" by (rule kept)
  qed
  have Qx: "restore_done s1 sel x t'"
    unfolding restore_done_def using restored [OF kx] by simp
  have stab: "restore_done s1 sel y t'" if d: "restore_done s1 sel y t" for y
    unfolding restore_done_def
  proof (intro impI)
    assume y: "y \<in> set sel" "otype (objs s1 y) = ''MESH''"
    with I have ky: "mesh_kept s1 t y" by (simp add: restore_inv_def)
    from d y have "mesh_restored s1 t y" by (simp add: restore_done_def)
    then show "mesh_restored s1 t' y" using restored [OF ky] by simp
  qed
  from run I' Qx stab show ?thesis by blast
qed

lemma restore_objects:
  assumes "restore_inv s1 (obj_names s2) sel s2"
  shows "\<exists>t. for_each (restore_object h (store_original_state s1 sel)) sel s2 = (Inr (), t)
           \<and> restore_inv s1 (obj_names s2) sel t
           \<and> (\<forall>obj \<in> set sel. restore_done s1 sel obj t)"
proof -
  have "\<exists>t. for_each (restore_object h (store_original_state s1 sel)) sel s2 = (Inr (), t)
           \<and> restore_inv s1 (obj_names s2) sel t
           \<and> (\<forall>obj \<in> set sel \<union> {}. restore_done s1 sel obj t)"
  proof (rule for_each_establishes [where Q = "restore_done s1 sel"])
    show "restore_inv s1 (obj_names s2) sel s2" by (rule assms)
    show "\<forall>y \<in> {}. restore_done s1 sel y s2" by simp
  next
    fix x t assume "x \<in> set sel" "restore_inv s1 (obj_names s2) sel t"
    then show "\<exists>t'. restore_object h (store_original_state s1 sel) x t = (Inr (), t')
           \<and> restore_inv s1 (obj_names s2) sel t' \<and> restore_done s1 sel x t'
           \<and> (\<forall>y. restore_done s1 sel y t \<longrightarrow> restore_done s1 sel y t')"
      by (rule restore_step)
  qed
  then show ?thesis by simp
qed

lemma restore_empty_unfold:
  "restore_empty h p t =
     (if fst p \<in> set (obj_names t) then set_matrix_world h (fst p) (snd p) t else t)"
  by (cases p) (simp add: restore_empty_def)

lemma restore_empty_fields:
  "obj_names (restore_empty h p t) = obj_names t"
  "meshes (restore_empty h p t) = meshes t"
  "data (objs (restore_empty h p t) n) = data (objs t n)"
  "matrix_world (objs (restore_empty h p t) n) =
     (if n = fst p \<and> n \<in> set (obj_names t) then snd p else matrix_world (objs t n))"
  unfolding restore_empty_unfold by (auto simp: set_matrix_world_fields)

lemma fold_restore_empty_fields:
  "obj_names (fold (restore_empty h) es t) = obj_names t"
  "meshes (fold (restore_empty h) es t) = meshes t"
  "data (objs (fold (restore_empty h) es t) n) = data (objs t n)"
  by (induction es arbitrary: t) (simp_all add: restore_empty_fields)

lemma fold_restore_empty_other:
  "n \<notin> fst ` set es \<Longrightarrow>
   matrix_world (objs (fold (restore_empty h) es t) n) = matrix_world (objs t n)"
  by (induction es arbitrary: t) (simp_all add: restore_empty_fields)

lemma fold_restore_empty_set:
  assumes "\<forall>p \<in> set es. snd p = F (fst p)"
    and "(n \<in> fst ` set es \<and> n \<in> set (obj_names t)) \<or> matrix_world (objs t n) = F n"
  shows "matrix_world (objs (fold (restore_empty h) es t) n) = F n"
  using assms
proof (induction es arbitrary: t)
  case Nil
  then show ?case by simp
next
  case (Cons p es)
  have all: "\<forall>q \<in> set es. snd q = F (fst q)" and p: "snd p = F (fst p)"
    using Cons.prems(1) by simp_all
  have "(n \<in> fst ` set es \<and> n \<in> set (obj_names (restore_empty h p t))) \<or>
        matrix_world (objs (restore_empty h p t) n) = F n"
  proof (cases "n \<in> fst ` set es \<and> n \<in> set (obj_names t)")
    case True
    then show ?thesis by (simp add: restore_empty_fields)
  next
    case False
    with Cons.prems(2) have "(n = fst p \<and> n \<in> set (obj_names t)) \<or> matrix_world (objs t n) = F n"
      by auto
    then have "matrix_world (objs (restore_empty h p t) n) = F n"
      using p by (auto simp: restore_empty_fields)
    then show ?thesis by simp
  qed
  from Cons.IH [OF all this] show ?case by simp
qed

lemma snapshot_entry_values:
  assumes "p \<in> set (original_empty_transforms (store_original_state s1 sel))"
  shows "otype (objs s1 (fst p)) = ''EMPTY'' \<and> snd p = matrix_world (objs s1 (fst p))"
proof -
  from assms have "p \<in> set (original_empty_transforms empty_snapshot) \<or> empty_entry s1 sel p"
    unfolding store_original_state_def by (rule snapshot_entries)
  then show ?thesis by (simp add: empty_snapshot_def empty_entry_def)
qed

lemma snapshot_has_child:
  assumes "obj \<in> set sel" "c \<in> set (children s1 obj)" "otype (objs s1 c) = ''EMPTY''"
  shows "c \<in> fst ` set (original_empty_transforms (store_original_state s1 sel))"
  unfolding store_original_state_def
  by (rule snapshot_keys) (use assms in blast)

lemma snap_cursor_call:
  assumes "\<forall>t. op_exec h ''view3d.snap_cursor_to_center'' [] t = (Inr (), t\<lparr>cursor_location := (0, 0, 0)\<rparr>)"
  shows "call_op h ''view3d.snap_cursor_to_center'' [] t =
           (Inr (), t\<lparr>cursor_location := (0, 0, 0),
                      calls := calls t @ [(''view3d.snap_cursor_to_center'', [])]\<rparr>)"
  using assms by (simp add: call_op_def)

lemma finally_block_restores:
  assumes inv: "restore_inv s1 (obj_names s2) sel s2"
    and ex: "\<forall>obj \<in> set sel. \<forall>c \<in> set (children s1 obj).
               otype (objs s1 c) = ''EMPTY'' \<longrightarrow> c \<in> set (obj_names s2)"
    and cur: "\<forall>t. op_exec h ''view3d.snap_cursor_to_center'' [] t
                = (Inr (), t\<lparr>cursor_location := (0, 0, 0)\<rparr>)"
  shows "\<exists>s3. finally_block h (store_original_state s1 sel) sel s2 = (Inr (), s3)
          \<and> (\<forall>obj \<in> set sel. otype (objs s1 obj) = ''MESH'' \<longrightarrow> mesh_restored s1 s3 obj)
          \<and> (\<forall>obj \<in> set sel. \<forall>c \<in> set (children s1 obj). otype (objs s1 c) = ''EMPTY'' \<longrightarrow>
                matrix_world (objs s3 c) = matrix_world (objs s1 c))
          \<and> cursor_location s3 = (0, 0, 0)"
proof -
  let ?snap = "store_original_state s1 sel"
  let ?es = "original_empty_transforms ?snap"
  from restore_objects [OF inv, of h]
  obtain t where loop: "for_each (restore_object h ?snap) sel s2 = (Inr (), t)"
    and It: "restore_inv s1 (obj_names s2) sel t"
    and rdone: "\<forall>obj \<in> set sel. restore_done s1 sel obj t"
    by blast
  define t2 where "t2 = fold (restore_empty h) ?es t"
  define s3 where "s3 = t2\<lparr>cursor_location := (0, 0, 0),
                      calls := calls t2 @ [(''view3d.snap_cursor_to_center'', [])]\<rparr>"
  have run: "finally_block h ?snap sel s2 = (Inr (), s3)"
    by (simp add: finally_block_def and_then_def loop s3_def t2_def snap_cursor_call [OF cur])
  have vals: "\<forall>p \<in> set ?es. snd p = matrix_world (objs s1 (fst p))"
  proof
    fix p assume "p \<in> set ?es"
    from snapshot_entry_values [OF this] show "snd p = matrix_world (objs s1 (fst p))" by simp
  qed
  have meshes_ok: "mesh_restored s1 s3 obj" if o: "obj \<in> set sel" "otype (objs s1 obj) = ''MESH''" for obj
  proof -
    from rdone o have r: "mesh_restored s1 t obj" by (simp add: restore_done_def)
    have "obj \<notin> fst ` set ?es"
    proof
      assume "obj \<in> fst ` set ?es"
      then obtain p where "p \<in> set ?es" "fst p = obj" by auto
      with snapshot_entry_values [of p s1 sel] have "otype (objs s1 obj) = ''EMPTY''" by auto
      with o(2) show False by simp
    qed
    then have m: "matrix_world (objs t2 obj) = matrix_world (objs t obj)"
      unfolding t2_def by (rule fold_restore_empty_other)
    have v: "vertices t2 obj = vertices t obj"
      unfolding t2_def vertices_def by (simp add: fold_restore_empty_fields)
    from r m v show ?thesis by (simp add: mesh_restored_def s3_def vertices_def)
  qed
  have empties_ok: "matrix_world (objs s3 c) = matrix_world (objs s1 c)"
    if o: "obj \<in> set sel" "c \<in> set (children s1 obj)" "otype (objs s1 c) = ''EMPTY''" for obj c
  proof -
    from snapshot_has_child [OF o] have k: "c \<in> fst ` set ?es" .
    from ex o have "c \<in> set (obj_names s2)" by blast
    with It have "c \<in> set (obj_names t)" by (simp add: restore_inv_def)
    with k have "(c \<in> fst ` set ?es \<and> c \<in> set (obj_names t)) \<or>
                 matrix_world (objs t c) = matrix_world (objs s1 c)"
      by simp
    from fold_restore_empty_set [where F = "\<lambda>n. matrix_world (objs s1 n)", OF vals this]
    show ?thesis by (simp add: s3_def t2_def)
  qed
  have c0: "cursor_location s3 = (0, 0, 0)" by (simp add: s3_def)
  show ?thesis
  proof (intro exI conjI ballI impI)
    show "finally_block h ?snap sel s2 = (Inr (), s3)" by (rule run)
    show "cursor_location s3 = (0, 0, 0)" by (rule c0)
  next
    fix obj assume "obj \<in> set sel" "otype (objs s1 obj) = ''MESH''"
    then show "mesh_restored s1 s3 obj" by (rule meshes_ok)
  next
    fix obj c assume "obj \<in> set sel" "c \<in> set (children s1 obj)" "otype (objs s1 c) = ''EMPTY''"
    then show "matrix_world (objs s3 c) = matrix_world (objs s1 c)" by (rule empties_ok)
  qed
qed

lemma same_shape_inv:
  assumes "same_shape selected s1 s2"
  shows "restore_inv s1 (obj_names s2) selected s2"
  using assms by (simp add: same_shape_def restore_inv_def mesh_kept_def)

text \<open>
  Claim C1. Take a run of \<open>execute\<close> that gets to the export: the save has succeeded
  and the filtered selection is not empty. Whatever the \<^verbatim>\<open>try\<close> body does, whether it
  returns or raises (\<open>r\<close> is either), the \<^verbatim>\<open>finally\<close> body runs on the state \<open>s2\<close> the
  body left, and \<open>execute\<close> ends with the body's exception or with FINISHED. Provided
  the body has left every snapshotted mesh a mesh on its datablock with as many vertices,
  and every snapshotted child empty in the document (\<open>same_shape\<close>), the restore phase
  raises nothing, and in the state it leaves every selected mesh has exactly the vertex
  positions and the world matrix it had at the snapshot, every child empty of a selected
  object has the world matrix it had at the snapshot, and the cursor is at the world
  origin (the host's \<^verbatim>\<open>snap_cursor_to_center\<close> puts it there).
\<close>

theorem restore_runs_after_export:
  assumes save: "call_op h ''wm.save_as_mainfile'' [(''filepath'', PStr (filepath s))] s = (Inr (), s1)"
    and sel: "selected = filter (\<lambda>obj. otype (objs s1 obj) \<noteq> ''EMPTY'') (selected_objects s1)"
    and ne: "selected \<noteq> []"
    and body: "try_body h selected s1 = (r, s2)"
    and shape: "same_shape selected s1 s2"
    and cur: "\<forall>t. op_exec h ''view3d.snap_cursor_to_center'' [] t
                = (Inr (), t\<lparr>cursor_location := (0, 0, 0)\<rparr>)"
  shows "\<exists>s3. finally_block h (store_original_state s1 selected) selected s2 = (Inr (), s3)
          \<and> execute h s = ((case r of Inl e \<Rightarrow> Inl e | Inr u \<Rightarrow> Inr FINISHED), s3)
          \<and> (\<forall>obj \<in> set selected. otype (objs s1 obj) = ''MESH'' \<longrightarrow>
                vertices s3 obj = vertices s1 obj \<and>
                matrix_world (objs s3 obj) = matrix_world (objs s1 obj))
          \<and> (\<forall>obj \<in> set selected. \<forall>child \<in> set (children s1 obj).
                otype (objs s1 child) = ''EMPTY'' \<longrightarrow>
                matrix_world (objs s3 child) = matrix_world (objs s1 child))
          \<and> cursor_location s3 = (0, 0, 0)"
proof -
  let ?snap = "store_original_state s1 selected"
  have ex: "\<forall>obj \<in> set selected. \<forall>c \<in> set (children s1 obj).
               otype (objs s1 c) = ''EMPTY'' \<longrightarrow> c \<in> set (obj_names s2)"
    using shape by (simp add: same_shape_def)
  from finally_block_restores [OF same_shape_inv [OF shape] ex cur]
  obtain s3 where fin: "finally_block h ?snap selected s2 = (Inr (), s3)"
    and meshes_ok: "\<forall>obj \<in> set selected. otype (objs s1 obj) = ''MESH'' \<longrightarrow> mesh_restored s1 s3 obj"
    and empties_ok: "\<forall>obj \<in> set selected. \<forall>c \<in> set (children s1 obj). otype (objs s1 c) = ''EMPTY'' \<longrightarrow>
                matrix_world (objs s3 c) = matrix_world (objs s1 c)"
    and c0: "cursor_location s3 = (0, 0, 0)"
    by blast
  have run: "execute h s = ((case r of Inl e \<Rightarrow> Inl e | Inr u \<Rightarrow> Inr FINISHED), s3)"
    using save ne body fin sel [symmetric]
    by (simp add: execute_def and_then_def Let_def split: sum.splits)
  show ?thesis
  proof (intro exI conjI ballI impI)
    show "finally_block h ?snap selected s2 = (Inr (), s3)" by (rule fin)
    show "execute h s = ((case r of Inl e \<Rightarrow> Inl e | Inr u \<Rightarrow> Inr FINISHED), s3)" by (rule run)
    show "cursor_location s3 = (0, 0, 0)" by (rule c0)
  next
    fix obj assume o: "obj \<in> set selected" "otype (objs s1 obj) = ''MESH''"
    with meshes_ok have "mesh_restored s1 s3 obj" by blast
    then show "vertices s3 obj = vertices s1 obj" "matrix_world (objs s3 obj) = matrix_world (objs s1 obj)"
      by (simp_all add: mesh_restored_def)
  next
    fix obj child
    assume "obj \<in> set selected" "child \<in> set (children s1 obj)" "otype (objs s1 child) = ''EMPTY''"
    with empties_ok show "matrix_world (objs s3 child) = matrix_world (objs s1 child)" by blast
  qed
qed

lemma demo_snap_cursor:
  "\<forall>t. op_exec demo_host ''view3d.snap_cursor_to_center'' [] t
        = (Inr (), t\<lparr>cursor_location := (0, 0, 0)\<rparr>)"
  by (simp add: demo_host_def demo_exec_def)

text \<open>Two runs on Cube (with its child empty Anchor) under the bottom-centre policy,
  which moves the vertices to (-1, -2, 0) and (1, 2, 6). The FBX run finishes; the OBJ run
  raises in the exporter call. Both end with the vertices and the matrices of the
  snapshot and with the cursor at the origin.\<close>

theorem restore_runs_after_export_witness:
  "fst (execute demo_host cube_bottom_doc) = Inr FINISHED
   \<and> vertices cube_bottom_doc ''Cube'' = [(0, 0, 0), (2, 4, 6)]
   \<and> vertices (snd (try_body demo_host [''Cube'']
          (cube_bottom_doc\<lparr>calls := [(''wm.save_as_mainfile'', [(''filepath'', PStr ''game.blend'')])]\<rparr>)))
        ''Cube'' = [(- 1, - 2, 0), (1, 2, 6)]
   \<and> vertices (snd (try_body demo_host [''Cube'']
          (cube_obj_doc\<lparr>calls := [(''wm.save_as_mainfile'', [(''filepath'', PStr ''game.blend'')])]\<rparr>)))
        ''Cube'' = [(- 1, - 2, 0), (1, 2, 6)]
   \<and> vertices (snd (execute demo_host cube_bottom_doc)) ''Cube'' = [(0, 0, 0), (2, 4, 6)]
   \<and> matrix_world (objs (snd (execute demo_host cube_bottom_doc)) ''Cube'') = Translation (1, 2, 3)
   \<and> matrix_world (objs (snd (execute demo_host cube_bottom_doc)) ''Anchor'') = Translation (5, 5, 5)
   \<and> cursor_location (snd (execute demo_host cube_bottom_doc)) = (0, 0, 0)
   \<and> fst (execute demo_host cube_obj_doc) = Inl (TypeError ''export_trianguled_mesh'')
   \<and> vertices (snd (execute demo_host cube_obj_doc)) ''Cube'' = [(0, 0, 0), (2, 4, 6)]
   \<and> matrix_world (objs (snd (execute demo_host cube_obj_doc)) ''Cube'') = Translation (1, 2, 3)
   \<and> matrix_world (objs (snd (execute demo_host cube_obj_doc)) ''Anchor'') = Translation (5, 5, 5)
   \<and> cursor_location (snd (execute demo_host cube_obj_doc)) = (0, 0, 0)"
proof -
  let ?save = "[(''wm.save_as_mainfile'', [(''filepath'', PStr ''game.blend'')])]"
  let ?a1 = "cube_bottom_doc\<lparr>calls := ?save\<rparr>"
  let ?b1 = "cube_obj_doc\<lparr>calls := ?save\<rparr>"
  let ?a2 = "snd (try_body demo_host [''Cube''] ?a1)"
  let ?b2 = "snd (try_body demo_host [''Cube''] ?b1)"
  have save_a: "call_op demo_host ''wm.save_as_mainfile'' [(''filepath'', PStr (filepath cube_bottom_doc))]
      cube_bottom_doc = (Inr (), ?a1)"
    by (simp add: run_defs demo_defs)
  have save_b: "call_op demo_host ''wm.save_as_mainfile'' [(''filepath'', PStr (filepath cube_obj_doc))]
      cube_obj_doc = (Inr (), ?b1)"
    by (simp add: run_defs demo_defs)
  have sel_a: "[''Cube''] = filter (\<lambda>obj. otype (objs ?a1 obj) \<noteq> ''EMPTY'') (selected_objects ?a1)"
    by (simp add: run_defs demo_defs)
  have sel_b: "[''Cube''] = filter (\<lambda>obj. otype (objs ?b1 obj) \<noteq> ''EMPTY'') (selected_objects ?b1)"
    by (simp add: run_defs demo_defs)
  have ne: "[''Cube''] \<noteq> []" by simp
  have ra: "fst (try_body demo_host [''Cube''] ?a1) = Inr ()"
    by (simp add: run_defs demo_defs str_lower_FBX Let_def)
  have rb: "fst (try_body demo_host [''Cube''] ?b1) = Inl (TypeError ''export_trianguled_mesh'')"
    by (simp add: run_defs demo_defs str_lower_OBJ Let_def)
  have body_a: "try_body demo_host [''Cube''] ?a1 = (Inr (), ?a2)"
    using ra by (metis prod.collapse)
  have body_b: "try_body demo_host [''Cube''] ?b1 = (Inl (TypeError ''export_trianguled_mesh''), ?b2)"
    using rb by (metis prod.collapse)
  have shape_a: "same_shape [''Cube''] ?a1 ?a2"
    by (simp add: same_shape_def run_defs demo_defs str_lower_FBX Let_def)
  have shape_b: "same_shape [''Cube''] ?b1 ?b2"
    by (simp add: same_shape_def run_defs demo_defs str_lower_OBJ Let_def)
  have orig: "vertices ?a1 ''Cube'' = [(0, 0, 0), (2, 4, 6)]" "vertices ?b1 ''Cube'' = [(0, 0, 0), (2, 4, 6)]"
    "vertices cube_bottom_doc ''Cube'' = [(0, 0, 0), (2, 4, 6)]"
    "matrix_world (objs ?a1 ''Cube'') = Translation (1, 2, 3)"
    "matrix_world (objs ?b1 ''Cube'') = Translation (1, 2, 3)"
    "matrix_world (objs ?a1 ''Anchor'') = Translation (5, 5, 5)"
    "matrix_world (objs ?b1 ''Anchor'') = Translation (5, 5, 5)"
    "otype (objs ?a1 ''Cube'') = ''MESH''" "otype (objs ?b1 ''Cube'') = ''MESH''"
    "otype (objs ?a1 ''Anchor'') = ''EMPTY''" "otype (objs ?b1 ''Anchor'') = ''EMPTY''"
    "''Anchor'' \<in> set (children ?a1 ''Cube'')" "''Anchor'' \<in> set (children ?b1 ''Cube'')"
    by (simp_all add: vertices_def children_def demo_defs select_set_def)
  from restore_runs_after_export [OF save_a sel_a ne body_a shape_a demo_snap_cursor]
  obtain a3 where a: "execute demo_host cube_bottom_doc = (Inr FINISHED, a3)"
    "\<forall>obj \<in> set [''Cube'']. otype (objs ?a1 obj) = ''MESH'' \<longrightarrow>
        vertices a3 obj = vertices ?a1 obj \<and> matrix_world (objs a3 obj) = matrix_world (objs ?a1 obj)"
    "\<forall>obj \<in> set [''Cube'']. \<forall>child \<in> set (children ?a1 obj). otype (objs ?a1 child) = ''EMPTY'' \<longrightarrow>
        matrix_world (objs a3 child) = matrix_world (objs ?a1 child)"
    "cursor_location a3 = (0, 0, 0)"
    by auto
  from restore_runs_after_export [OF save_b sel_b ne body_b shape_b demo_snap_cursor]
  obtain b3 where b: "execute demo_host cube_obj_doc = (Inl (TypeError ''export_trianguled_mesh''), b3)"
    "\<forall>obj \<in> set [''Cube'']. otype (objs ?b1 obj) = ''MESH'' \<longrightarrow>
        vertices b3 obj = vertices ?b1 obj \<and> matrix_world (objs b3 obj) = matrix_world (objs ?b1 obj)"
    "\<forall>obj \<in> set [''Cube'']. \<forall>child \<in> set (children ?b1 obj). otype (objs ?b1 child) = ''EMPTY'' \<longrightarrow>
        matrix_world (objs b3 child) = matrix_world (objs ?b1 child)"
    "cursor_location b3 = (0, 0, 0)"
    by auto
  from a(2) orig have a_mesh: "vertices a3 ''Cube'' = [(0, 0, 0), (2, 4, 6)]"
    "matrix_world (objs a3 ''Cube'') = Translation (1, 2, 3)"
    by simp_all
  from a(3) orig(6,10,12) have a_empty: "matrix_world (objs a3 ''Anchor'') = Translation (5, 5, 5)"
    by (metis list.set_intros(1))
  from b(2) orig have b_mesh: "vertices b3 ''Cube'' = [(0, 0, 0), (2, 4, 6)]"
    "matrix_world (objs b3 ''Cube'') = Translation (1, 2, 3)"
    by simp_all
  from b(3) orig(7,11,13) have b_empty: "matrix_world (objs b3 ''Anchor'') = Translation (5, 5, 5)"
    by (metis list.set_intros(1))
  have moved: "vertices ?a2 ''Cube'' = [(- 1, - 2, 0), (1, 2, 6)]"
    "vertices ?b2 ''Cube'' = [(- 1, - 2, 0), (1, 2, 6)]"
    by (simp_all add: run_defs demo_defs str_lower_FBX str_lower_OBJ Let_def float_simps)
  show ?thesis
    unfolding a(1) b(1) fst_conv snd_conv
    using a_mesh a_empty a(4) b_mesh b_empty b(4) orig(3) moved by simp
qed

section \<open>Selected objects that are not meshes\<close>

lemma fold_restore_empty_untouched:
  "n \<notin> fst ` set es \<Longrightarrow> objs (fold (restore_empty h) es t) n = objs t n"
proof (induction es arbitrary: t)
  case Nil
  then show ?case by simp
next
  case (Cons p es)
  then have "n \<noteq> fst p" "n \<notin> fst ` set es" by auto
  from Cons.IH [OF this(2)] this(1) show ?case
    by (simp add: restore_empty_unfold set_matrix_world_def)
qed

text \<open>
  Claim C2 does not hold of the source. The selection is filtered by
  \<^verbatim>\<open>obj.type != 'EMPTY'\<close>, so a selected curve, light or camera stays in it, and line
  248 sets its location to (0, 0, 0); but line 223 stores a matrix only for an object
  whose type is MESH. For every selected object that is neither a mesh nor an empty:
  none of the three dictionaries of the snapshot has an entry for it, the move to the
  origin sets its location to (0, 0, 0), its step of the restore loop changes nothing,
  and the restore of the empties does not touch it. This holds for every host.
\<close>

theorem non_mesh_selection_not_restored:
  assumes "obj \<in> set selected"
    and "otype (objs s1 obj) \<noteq> ''MESH''" and "otype (objs s1 obj) \<noteq> ''EMPTY''"
  shows "map_of (original_matrices (store_original_state s1 selected)) obj = None
         \<and> map_of (original_vertices (store_original_state s1 selected)) obj = None
         \<and> map_of (original_empty_transforms (store_original_state s1 selected)) obj = None
         \<and> location (objs (move_to_origin selected s2) obj) = (0, 0, 0)
         \<and> restore_object h (store_original_state s1 selected) obj t = (Inr (), t)
         \<and> objs (fold (restore_empty h) (original_empty_transforms (store_original_state s1 selected)) t) obj
             = objs t obj"
proof -
  let ?snap = "store_original_state s1 selected"
  have m: "map_of (original_matrices ?snap) obj = None"
    using assms(2) by (simp add: store_original_state_def snapshot_matrices empty_snapshot_def)
  have v: "map_of (original_vertices ?snap) obj = None"
    using assms(2) by (simp add: store_original_state_def snapshot_vertices empty_snapshot_def)
  have k: "obj \<notin> fst ` set (original_empty_transforms ?snap)"
  proof
    assume "obj \<in> fst ` set (original_empty_transforms ?snap)"
    then obtain p where "p \<in> set (original_empty_transforms ?snap)" "fst p = obj" by auto
    with snapshot_entry_values [of p s1 selected] assms(3) show False by auto
  qed
  then have e: "map_of (original_empty_transforms ?snap) obj = None"
    by (simp add: map_of_eq_None_iff)
  have l: "location (objs (move_to_origin selected s2) obj) = (0, 0, 0)"
    using assms(1) by (rule location_move_to_origin)
  have r: "restore_object h ?snap obj t = (Inr (), t)"
    using v m by (rule restore_object_skip)
  have u: "objs (fold (restore_empty h) (original_empty_transforms ?snap) t) obj = objs t obj"
    using k by (rule fold_restore_empty_untouched)
  from m v e l r u show ?thesis by simp
qed

text \<open>The curve Path, selected with the mesh Cube: the run finishes, Cube is back at
  (1, 2, 3) and Path is left at (0, 0, 0).\<close>

theorem non_mesh_selection_not_restored_witness:
  "selected_objects demo_doc = [''Cube'', ''Path'']
   \<and> otype (objs demo_doc ''Path'') = ''CURVE''
   \<and> location (objs demo_doc ''Path'') = (7, 8, 9)
   \<and> location (objs demo_doc ''Cube'') = (1, 2, 3)
   \<and> map_of (original_matrices (store_original_state demo_doc [''Cube'', ''Path''])) ''Path'' = None
   \<and> map_of (original_matrices (store_original_state demo_doc [''Cube'', ''Path''])) ''Cube''
        = Some (Translation (1, 2, 3))
   \<and> fst (execute demo_host demo_doc) = Inr FINISHED
   \<and> location (objs (snd (execute demo_host demo_doc)) ''Path'') = (0, 0, 0)
   \<and> location (objs (snd (execute demo_host demo_doc)) ''Cube'') = (1, 2, 3)"
proof -
  have a: "''Path'' \<in> set [''Cube'', ''Path'']" "otype (objs demo_doc ''Path'') \<noteq> ''MESH''"
    "otype (objs demo_doc ''Path'') \<noteq> ''EMPTY''"
    by (simp_all add: demo_defs)
  note T = non_mesh_selection_not_restored [OF a, of demo_doc demo_host demo_doc]
  from T have n: "map_of (original_matrices (store_original_state demo_doc [''Cube'', ''Path''])) ''Path'' = None"
    by (rule conjunct1)
  have rest: "selected_objects demo_doc = [''Cube'', ''Path'']"
    "otype (objs demo_doc ''Path'') = ''CURVE''"
    "location (objs demo_doc ''Path'') = (7, 8, 9)"
    "location (objs demo_doc ''Cube'') = (1, 2, 3)"
    "map_of (original_matrices (store_original_state demo_doc [''Cube'', ''Path''])) ''Cube''
        = Some (Translation (1, 2, 3))"
    by (simp_all add: run_defs demo_defs)
  have run: "fst (execute demo_host demo_doc) = Inr FINISHED"
    "location (objs (snd (execute demo_host demo_doc)) ''Path'') = (0, 0, 0)"
    "location (objs (snd (execute demo_host demo_doc)) ''Cube'') = (1, 2, 3)"
    by (simp_all add: run_defs demo_defs str_lower_FBX Let_def)
  from n rest run show ?thesis by simp
qed

section \<open>The exporter calls\<close>

lemma call_op_cases:
  assumes "call_op h name kw s = (r, s')"
  shows "(\<exists>k. r = Inl (TypeError k) \<and> s' = s \<and> k \<notin> set (op_keywords h name))
         \<or> calls s' = calls s @ [(name, kw)]"
  using assms
  by (auto simp: call_op_def find_Some_iff split: option.splits prod.splits)

lemma call_op_no_export:
  assumes "call_op h name kw s = (r, s')" and "\<not> is_export (name, kw)"
  shows "exports s' = exports s"
  using call_op_cases [OF assms(1)] assms(2) by (auto simp: exports_def)

lemma call_op_Inr_calls:
  assumes "call_op h name kw s = (Inr u, s')"
  shows "calls s' = calls s @ [(name, kw)]"
  using call_op_cases [OF assms] by auto

lemma select_all_not_export: "\<not> is_export (''object.select_all'', kw)"
  by (simp add: is_export_def)

lemma exports_select_set [simp]: "exports (select_set obj b s) = exports s"
  by (simp add: exports_def select_set_def)

lemma exports_set_active [simp]: "exports (set_active obj s) = exports s"
  by (simp add: exports_def set_active_def)

lemma exports_fold_select_set [simp]:
  "exports (fold (\<lambda>obj. select_set obj True) xs s) = exports s"
  by (induction xs arbitrary: s) simp_all

lemma fold_select_set_fields [simp]:
  "scene (fold (\<lambda>obj. select_set obj True) xs s) = scene s"
  "active (fold (\<lambda>obj. select_set obj True) xs s) = active s"
  "calls (fold (\<lambda>obj. select_set obj True) xs s) = calls s"
  by (induction xs arbitrary: s) (simp_all add: select_set_def)

lemma export_one_exports:
  assumes "export_one h fmt dir um ut uvc obj s = (Inr (), s')"
  shows "\<exists>c. exports s' = exports s @ [c] \<and> filepath_of c = export_file h fmt dir obj
           \<and> fst c = (case fmt of FBX \<Rightarrow> ''export_scene.fbx'' | OBJ \<Rightarrow> ''wm.obj_export'')
           \<and> (fmt = OBJ \<longrightarrow> snd c =
                 [(''filepath'', PStr (export_file h OBJ dir obj)),
                  (''export_selected_objects'', PBool True), (''apply_modifiers'', PBool True),
                  (''export_triangulated_mesh'', PBool True)])"
proof -
  let ?sel = "call_op h ''object.select_all'' [(''action'', PStr ''DESELECT'')] (set_active obj s)"
  obtain r s2 where sa: "?sel = (r, s2)" by (cases ?sel)
  with assms have r: "r = Inr ()"
    by (cases r) (simp_all add: export_one_def and_then_def Let_def)
  from call_op_no_export [OF sa select_all_not_export] have e2: "exports s2 = exports s" by simp
  let ?s3 = "select_set obj True s2"
  show ?thesis
  proof (cases fmt)
    case FBX
    let ?kw = "fbx_kwargs (export_file h FBX dir obj) um ut uvc"
    from assms sa r FBX have c: "call_op h ''export_scene.fbx'' ?kw ?s3 = (Inr (), s')"
      by (simp add: export_one_def and_then_def Let_def export_file_def)
    from call_op_Inr_calls [OF c] have "exports s' = exports ?s3 @ [(''export_scene.fbx'', ?kw)]"
      by (simp add: exports_def is_export_def)
    with e2 FBX show ?thesis
      by (simp add: filepath_of_def fbx_kwargs_def)
  next
    case OBJ
    let ?kw = "[(''filepath'', PStr (export_file h OBJ dir obj)),
                  (''export_selected_objects'', PBool True), (''apply_modifiers'', PBool True),
                  (''export_triangulated_mesh'', PBool True)]"
    from assms sa r OBJ have c: "call_op h ''wm.obj_export'' ?kw ?s3 = (Inr (), s')"
      by (simp add: export_one_def and_then_def Let_def export_file_def)
    from call_op_Inr_calls [OF c] have "exports s' = exports ?s3 @ [(''wm.obj_export'', ?kw)]"
      by (simp add: exports_def is_export_def)
    with e2 OBJ show ?thesis
      by (simp add: filepath_of_def)
  qed
qed

lemma export_objects_files:
  assumes "export_objects h selected fmt dir um ut uvc s = (Inr (), s')"
  shows "map filepath_of (exports s') =
           map filepath_of (exports s) @ map (export_file h fmt dir) selected"
  using assms unfolding export_objects_def
proof (induction selected arbitrary: s)
  case Nil
  then show ?case by simp
next
  case (Cons obj objs)
  obtain r s1 where one: "export_one h fmt dir um ut uvc obj s = (r, s1)"
    by (cases "export_one h fmt dir um ut uvc obj s")
  with Cons.prems have r: "r = Inr ()" by (cases r) simp_all
  from Cons.prems one r have rest:
    "for_each (export_one h fmt dir um ut uvc) objs s1 = (Inr (), s')"
    by simp
  from export_one_exports [OF one [unfolded r]]
  obtain c where c: "exports s1 = exports s @ [c]" "filepath_of c = export_file h fmt dir obj"
    by blast
  from Cons.IH [OF rest] c show ?case by simp
qed

lemma export_selection_fbx:
  assumes "export_selection h selected FBX dir um ut uvc s = (Inr (), s')"
  shows "\<exists>s1 base.
           call_op h ''object.select_all'' [(''action'', PStr ''DESELECT'')] s = (Inr (), s1)
           \<and> (if set_file_name (scene s1) \<noteq> [] then base = set_file_name (scene s1)
               else active s1 = Some base)
           \<and> exports s' = exports s @
                 [(''export_scene.fbx'', fbx_kwargs (export_file h FBX dir base) um ut uvc)]"
proof -
  let ?sel = "call_op h ''object.select_all'' [(''action'', PStr ''DESELECT'')] s"
  obtain r s1 where sa: "?sel = (r, s1)" by (cases ?sel)
  with assms have r: "r = Inr ()"
    by (cases r) (simp_all add: export_selection_def and_then_def)
  from call_op_no_export [OF sa select_all_not_export] have e1: "exports s1 = exports s" .
  let ?s2 = "fold (\<lambda>obj. select_set obj True) selected s1"
  show ?thesis
  proof (cases "set_file_name (scene s1) \<noteq> []")
    case True
    let ?kw = "fbx_kwargs (export_file h FBX dir (set_file_name (scene s1))) um ut uvc"
    from assms sa r True have c: "call_op h ''export_scene.fbx'' ?kw ?s2 = (Inr (), s')"
      by (simp add: export_selection_def and_then_def Let_def export_file_def)
    from call_op_Inr_calls [OF c] have "exports s' = exports ?s2 @ [(''export_scene.fbx'', ?kw)]"
      by (simp add: exports_def is_export_def)
    with e1 sa r True show ?thesis by simp
  next
    case False
    with assms sa r obtain a where a: "active s1 = Some a"
      by (cases "active s1") (simp_all add: export_selection_def and_then_def Let_def)
    let ?kw = "fbx_kwargs (export_file h FBX dir a) um ut uvc"
    from assms sa r False a have c: "call_op h ''export_scene.fbx'' ?kw ?s2 = (Inr (), s')"
      by (simp add: export_selection_def and_then_def Let_def export_file_def)
    from call_op_Inr_calls [OF c] have "exports s' = exports ?s2 @ [(''export_scene.fbx'', ?kw)]"
      by (simp add: exports_def is_export_def)
    with e1 sa r False a show ?thesis by simp
  qed
qed

lemma call_op_unknown_keyword:
  assumes "k \<in> fst ` set kw" and "k \<notin> set (op_keywords h name)"
  shows "\<exists>k'. call_op h name kw s = (Inl (TypeError k'), s)"
proof -
  from assms have "\<exists>x \<in> set (map fst kw). x \<notin> set (op_keywords h name)" by auto
  then obtain k' where "List.find (\<lambda>k. k \<notin> set (op_keywords h name)) (map fst kw) = Some k'"
    by (cases "List.find (\<lambda>k. k \<notin> set (op_keywords h name)) (map fst kw)")
       (auto simp: find_None_iff)
  then show ?thesis by (simp add: call_op_def)
qed

lemma export_selection_obj:
  assumes typo: "''export_trianguled_mesh'' \<notin> set (op_keywords h ''wm.obj_export'')"
  shows "\<exists>e s'. export_selection h selected OBJ dir um ut uvc s = (Inl e, s') \<and> exports s' = exports s"
proof -
  let ?sel = "call_op h ''object.select_all'' [(''action'', PStr ''DESELECT'')] s"
  obtain r s1 where sa: "?sel = (r, s1)" by (cases ?sel)
  from call_op_no_export [OF sa select_all_not_export] have e1: "exports s1 = exports s" .
  let ?s2 = "fold (\<lambda>obj. select_set obj True) selected s1"
  show ?thesis
  proof (cases r)
    case (Inl e)
    with sa e1 show ?thesis by (simp add: export_selection_def and_then_def)
  next
    case (Inr u)
    show ?thesis
    proof (cases "set_file_name (scene s1) = [] \<and> active s1 = None")
      case True
      with sa Inr e1 show ?thesis
        by (simp add: export_selection_def and_then_def Let_def)
    next
      case False
      have rejected: "\<exists>k'. call_op h ''wm.obj_export''
                 [(''filepath'', PStr (export_file h OBJ dir base)),
                  (''export_selected_objects'', PBool True), (''apply_modifiers'', PBool True),
                  (''export_trianguled_mesh'', PBool True)] ?s2 = (Inl (TypeError k'), ?s2)" for base
        by (rule call_op_unknown_keyword [OF _ typo]) simp
      show ?thesis
      proof (cases "set_file_name (scene s1) \<noteq> []")
        case True
        from rejected [of "set_file_name (scene s1)"] obtain k' where
          "call_op h ''wm.obj_export''
                 [(''filepath'', PStr (export_file h OBJ dir (set_file_name (scene s1)))),
                  (''export_selected_objects'', PBool True), (''apply_modifiers'', PBool True),
                  (''export_trianguled_mesh'', PBool True)] ?s2 = (Inl (TypeError k'), ?s2)"
          by blast
        with sa Inr True
        have "export_selection h selected OBJ dir um ut uvc s = (Inl (TypeError k'), ?s2)"
          by (simp add: export_selection_def and_then_def Let_def export_file_def)
        with e1 show ?thesis by simp
      next
        case noname: False
        with False obtain a where a: "active s1 = Some a" by auto
        from rejected [of a] obtain k' where
          "call_op h ''wm.obj_export''
                 [(''filepath'', PStr (export_file h OBJ dir a)),
                  (''export_selected_objects'', PBool True), (''apply_modifiers'', PBool True),
                  (''export_trianguled_mesh'', PBool True)] ?s2 = (Inl (TypeError k'), ?s2)"
          by blast
        with sa Inr noname a
        have "export_selection h selected OBJ dir um ut uvc s = (Inl (TypeError k'), ?s2)"
          by (simp add: export_selection_def and_then_def Let_def export_file_def)
        with e1 show ?thesis by simp
      qed
    qed
  qed
qed

text \<open>
  Claim C4 holds of the batch path only. There, every OBJ export that returns has added
  exactly the call \<^verbatim>\<open>wm.obj_export\<close> with \<^verbatim>\<open>apply_modifiers\<close> and
  \<^verbatim>\<open>export_triangulated_mesh\<close> both True, whatever the option flags are (they are
  not read). In the export of the whole selection the second keyword is spelled
  \<^verbatim>\<open>export_trianguled_mesh\<close> (line 286): on every host whose OBJ exporter has no
  property of that name the call is refused before the exporter runs, the export raises,
  and the trace gains no exporter call.
\<close>

theorem obj_exporter_arguments:
  "(export_one h OBJ dir um ut uvc obj s = (Inr (), s') \<longrightarrow>
      exports s' = exports s @
        [(''wm.obj_export'',
          [(''filepath'', PStr (export_file h OBJ dir obj)),
           (''export_selected_objects'', PBool True), (''apply_modifiers'', PBool True),
           (''export_triangulated_mesh'', PBool True)])])
   \<and> (''export_trianguled_mesh'' \<notin> set (op_keywords h ''wm.obj_export'') \<longrightarrow>
       (\<exists>e t. export_selection h selected OBJ dir um ut uvc s = (Inl e, t) \<and> exports t = exports s))"
proof (intro conjI impI)
  assume "export_one h OBJ dir um ut uvc obj s = (Inr (), s')"
  from export_one_exports [OF this]
  obtain c where c: "exports s' = exports s @ [c]" "fst c = ''wm.obj_export''"
    "snd c = [(''filepath'', PStr (export_file h OBJ dir obj)),
           (''export_selected_objects'', PBool True), (''apply_modifiers'', PBool True),
           (''export_triangulated_mesh'', PBool True)]"
    by auto
  from c(2,3) have "c = (''wm.obj_export'',
          [(''filepath'', PStr (export_file h OBJ dir obj)),
           (''export_selected_objects'', PBool True), (''apply_modifiers'', PBool True),
           (''export_triangulated_mesh'', PBool True)])"
    by (cases c) simp
  with c(1) show "exports s' = exports s @
        [(''wm.obj_export'',
          [(''filepath'', PStr (export_file h OBJ dir obj)),
           (''export_selected_objects'', PBool True), (''apply_modifiers'', PBool True),
           (''export_triangulated_mesh'', PBool True)])]"
    by simp
next
  assume "''export_trianguled_mesh'' \<notin> set (op_keywords h ''wm.obj_export'')"
  then show "\<exists>e t. export_selection h selected OBJ dir um ut uvc s = (Inl e, t) \<and> exports t = exports s"
    by (rule export_selection_obj)
qed

text \<open>Cube exported as OBJ: the batch path calls the exporter with both options on; the
  single-file path raises TypeError on the misspelled keyword and no exporter runs.\<close>

theorem obj_exporter_arguments_witness:
  "''export_trianguled_mesh'' \<notin> set (op_keywords demo_host ''wm.obj_export'')
   \<and> fst (export_selection demo_host [''Cube''] OBJ ''out'' False False ''NONE'' cube_obj_doc)
        = Inl (TypeError ''export_trianguled_mesh'')
   \<and> exports (snd (export_selection demo_host [''Cube''] OBJ ''out'' False False ''NONE'' cube_obj_doc))
        = []
   \<and> fst (export_one demo_host OBJ ''out'' False False ''NONE'' ''Cube'' cube_obj_batch_doc) = Inr ()
   \<and> exports (snd (export_one demo_host OBJ ''out'' False False ''NONE'' ''Cube'' cube_obj_batch_doc))
        = [(''wm.obj_export'',
            [(''filepath'', PStr ''out/Cube.obj''), (''export_selected_objects'', PBool True),
             (''apply_modifiers'', PBool True), (''export_triangulated_mesh'', PBool True)])]
   \<and> fst (execute demo_host cube_obj_doc) = Inl (TypeError ''export_trianguled_mesh'')
   \<and> exports (snd (execute demo_host cube_obj_doc)) = []
   \<and> fst (execute demo_host cube_obj_batch_doc) = Inr FINISHED"
proof -
  let ?single = "export_selection demo_host [''Cube''] OBJ ''out'' False False ''NONE'' cube_obj_doc"
  let ?one = "export_one demo_host OBJ ''out'' False False ''NONE'' ''Cube'' cube_obj_batch_doc"
  have typo: "''export_trianguled_mesh'' \<notin> set (op_keywords demo_host ''wm.obj_export'')"
    by (simp add: demo_host_def demo_keywords_def)
  have f1: "fst ?single = Inl (TypeError ''export_trianguled_mesh'')"
    by (simp add: run_defs demo_defs str_lower_OBJ Let_def)
  have f2: "fst ?one = Inr ()"
    by (simp add: run_defs demo_defs str_lower_OBJ Let_def)
  then have one: "?one = (Inr (), snd ?one)" by (metis prod.collapse)
  have e0: "exports cube_obj_doc = []" "exports cube_obj_batch_doc = []"
    by (simp_all add: exports_def demo_defs select_set_def)
  have fname: "export_file demo_host OBJ ''out'' ''Cube'' = ''out/Cube.obj''"
    by (simp add: export_file_def demo_host_def demo_clean_name_def str_lower_OBJ)
  note T = obj_exporter_arguments [of demo_host "''out''" False False "''NONE''" "''Cube''" cube_obj_batch_doc
      "snd ?one" "[''Cube'']"]
  from T one have batch: "exports (snd ?one) = exports cube_obj_batch_doc @
        [(''wm.obj_export'',
          [(''filepath'', PStr (export_file demo_host OBJ ''out'' ''Cube'')),
           (''export_selected_objects'', PBool True), (''apply_modifiers'', PBool True),
           (''export_triangulated_mesh'', PBool True)])]"
    by blast
  note U = obj_exporter_arguments [of demo_host "''out''" False False "''NONE''" "''Cube''" cube_obj_doc
      "snd ?one" "[''Cube'']"]
  from U typo obtain e t where "?single = (Inl e, t)" "exports t = exports cube_obj_doc"
    by blast
  then have single: "exports (snd ?single) = []" using e0 by simp
  have run: "fst (execute demo_host cube_obj_doc) = Inl (TypeError ''export_trianguled_mesh'')"
    "exports (snd (execute demo_host cube_obj_doc)) = []"
    "fst (execute demo_host cube_obj_batch_doc) = Inr FINISHED"
    by (simp_all add: run_defs demo_defs str_lower_OBJ Let_def exports_def is_export_def)
  from typo f1 f2 single batch run show ?thesis
    by (simp add: e0 fname)
qed

text \<open>
  Claim C7 holds of the batch path and of the FBX format. A batch export that returns
  has added one exporter call per selected object, in order, each writing the file named
  by the sanitized object name and the lower-case format. A single-file FBX export that
  returns has added exactly one exporter call, writing the file named by the sanitized
  \<open>set_file_name\<close> or, when that is empty, by the sanitized name of the object that is
  active at that moment. A single-file OBJ export never returns on a host without a
  property \<^verbatim>\<open>export_trianguled_mesh\<close>: it raises and no exporter call is made, so no
  file is written where the claim has exactly one.
\<close>

theorem export_invocations:
  "(export_objects h selected fmt dir um ut uvc s = (Inr (), s') \<longrightarrow>
      map filepath_of (exports s') =
        map filepath_of (exports s) @ map (export_file h fmt dir) selected)
   \<and> (export_selection h selected FBX dir um ut uvc s = (Inr (), s') \<longrightarrow>
       (\<exists>s1 base.
           call_op h ''object.select_all'' [(''action'', PStr ''DESELECT'')] s = (Inr (), s1)
           \<and> (if set_file_name (scene s1) \<noteq> [] then base = set_file_name (scene s1)
               else active s1 = Some base)
           \<and> exports s' = exports s @
                 [(''export_scene.fbx'', fbx_kwargs (export_file h FBX dir base) um ut uvc)]))
   \<and> (''export_trianguled_mesh'' \<notin> set (op_keywords h ''wm.obj_export'') \<longrightarrow>
       (\<exists>e t. export_selection h selected OBJ dir um ut uvc s = (Inl e, t) \<and> exports t = exports s))"
  using export_objects_files [of h selected fmt dir um ut uvc s s']
    export_selection_fbx [of h selected dir um ut uvc s s']
    export_selection_obj [of h selected dir um ut uvc s]
  by blast

text \<open>Cube and Path in batch mode give two files; the whole selection as FBX gives one,
  named after the active object; Cube alone as OBJ gives none.\<close>

theorem export_invocations_witness:
  "fst (export_objects demo_host [''Cube'', ''Path''] FBX ''out'' False False ''NONE'' batch_doc) = Inr ()
   \<and> map filepath_of (exports (snd (export_objects demo_host [''Cube'', ''Path''] FBX ''out''
          False False ''NONE'' batch_doc))) = [''out/Cube.fbx'', ''out/Path.fbx'']
   \<and> set_file_name (scene demo_doc) = [] \<and> active demo_doc = Some ''Cube''
   \<and> fst (export_selection demo_host [''Cube'', ''Path''] FBX ''out'' False False ''NONE'' demo_doc)
        = Inr ()
   \<and> map filepath_of (exports (snd (export_selection demo_host [''Cube'', ''Path''] FBX ''out''
          False False ''NONE'' demo_doc))) = [''out/Cube.fbx'']
   \<and> ''export_trianguled_mesh'' \<notin> set (op_keywords demo_host ''wm.obj_export'')
   \<and> fst (execute demo_host cube_obj_doc) = Inl (TypeError ''export_trianguled_mesh'')
   \<and> length (exports (snd (execute demo_host cube_obj_doc))) = 0"
proof -
  let ?batch = "export_objects demo_host [''Cube'', ''Path''] FBX ''out'' False False ''NONE'' batch_doc"
  let ?single = "export_selection demo_host [''Cube'', ''Path''] FBX ''out'' False False ''NONE'' demo_doc"
  have typo: "''export_trianguled_mesh'' \<notin> set (op_keywords demo_host ''wm.obj_export'')"
    by (simp add: demo_host_def demo_keywords_def)
  have fb: "fst ?batch = Inr ()"
    by (simp add: run_defs demo_defs str_lower_FBX Let_def)
  then have b: "?batch = (Inr (), snd ?batch)" by (metis prod.collapse)
  have fs: "fst ?single = Inr ()"
    by (simp add: run_defs demo_defs str_lower_FBX Let_def)
  then have s: "?single = (Inr (), snd ?single)" by (metis prod.collapse)
  have e0: "exports batch_doc = []" "exports demo_doc = []"
    by (simp_all add: exports_def demo_defs)
  have files: "export_file demo_host FBX ''out'' ''Cube'' = ''out/Cube.fbx''"
    "export_file demo_host FBX ''out'' ''Path'' = ''out/Path.fbx''"
    by (simp_all add: export_file_def demo_host_def demo_clean_name_def str_lower_FBX)
  note T = export_invocations [of demo_host "[''Cube'', ''Path'']" FBX "''out''" False False "''NONE''"
      batch_doc "snd ?batch"]
  from T b have "map filepath_of (exports (snd ?batch)) =
        map filepath_of (exports batch_doc) @ map (export_file demo_host FBX ''out'') [''Cube'', ''Path'']"
    by blast
  then have batch: "map filepath_of (exports (snd ?batch)) = [''out/Cube.fbx'', ''out/Path.fbx'']"
    by (simp add: e0 files)
  have single: "map filepath_of (exports (snd ?single)) = [''out/Cube.fbx'']"
    by (simp add: run_defs demo_defs str_lower_FBX Let_def exports_def is_export_def filepath_of_def)
  have doc: "set_file_name (scene demo_doc) = []" "active demo_doc = Some ''Cube''"
    by (simp_all add: demo_defs)
  have run: "fst (execute demo_host cube_obj_doc) = Inl (TypeError ''export_trianguled_mesh'')"
    "length (exports (snd (execute demo_host cube_obj_doc))) = 0"
    by (simp_all add: run_defs demo_defs str_lower_OBJ Let_def exports_def is_export_def)
  from fb batch doc fs single typo run show ?thesis by simp
qed

section \<open>The custom anchor\<close>

lemma find_custom_empty_registered:
  "selected_empty (scene s) = Some se \<Longrightarrow>
   find_custom_empty s cs =
     Inr (List.find (\<lambda>c. otype (objs s c) = ''EMPTY'' \<and> (se = [] \<or> c = se)) cs)"
  by (induction cs) simp_all

text \<open>
  Claim C6 holds where \<open>selected_empty\<close> exists on the scene: for a mesh,
  \<open>process_obj\<close> looks for the first child of type EMPTY (of that name, when the name is
  not empty); with none it changes nothing and raises nothing, and with one it moves the
  cursor to the translation of that child's world matrix, deselects all, selects the
  object, makes it active and calls the host's cursor-anchored \<^verbatim>\<open>origin_set\<close>. But the
  add-on registers no \<open>selected_empty\<close>, and on a scene without it the second half
  fails: for a mesh with a child of type EMPTY \<open>process_obj\<close> raises AttributeError and
  leaves the state as it was, cursor and origin included.
\<close>

theorem custom_anchor_lookup:
  "(selected_empty (scene s) = Some se \<longrightarrow> otype (objs s obj) = ''MESH'' \<longrightarrow>
      (case List.find (\<lambda>c. otype (objs s c) = ''EMPTY'' \<and> (se = [] \<or> c = se)) (children s obj) of
         None \<Rightarrow> process_obj h obj s = (Inr (), s)
       | Some marker \<Rightarrow>
           process_obj h obj s =
             and_then
               (call_op h ''object.select_all'' [(''action'', PStr ''DESELECT'')])
               (\<lambda>u s1.
                  call_op h ''object.origin_set''
                    [(''type'', PStr ''ORIGIN_CURSOR''), (''center'', PStr ''MEDIAN'')]
                    (set_active obj (select_set obj True s1)))
               (set_cursor (translation (matrix_world (objs s marker))) s)))
   \<and> (selected_empty (scene s) = None \<longrightarrow> otype (objs s obj) = ''MESH'' \<longrightarrow>
        list_ex (\<lambda>c. otype (objs s c) = ''EMPTY'') (children s obj) \<longrightarrow>
        process_obj h obj s = (Inl (AttributeError ''selected_empty''), s))"
proof (intro conjI impI)
  assume "selected_empty (scene s) = Some se" "otype (objs s obj) = ''MESH''"
  then show "case List.find (\<lambda>c. otype (objs s c) = ''EMPTY'' \<and> (se = [] \<or> c = se)) (children s obj) of
         None \<Rightarrow> process_obj h obj s = (Inr (), s)
       | Some marker \<Rightarrow>
           process_obj h obj s =
             and_then
               (call_op h ''object.select_all'' [(''action'', PStr ''DESELECT'')])
               (\<lambda>u s1.
                  call_op h ''object.origin_set''
                    [(''type'', PStr ''ORIGIN_CURSOR''), (''center'', PStr ''MEDIAN'')]
                    (set_active obj (select_set obj True s1)))
               (set_cursor (translation (matrix_world (objs s marker))) s)"
    by (simp add: process_obj_def find_custom_empty_registered split: option.splits)
next
  assume "selected_empty (scene s) = None" "otype (objs s obj) = ''MESH''"
    "list_ex (\<lambda>c. otype (objs s c) = ''EMPTY'') (children s obj)"
  then show "process_obj h obj s = (Inl (AttributeError ''selected_empty''), s)"
    by (simp add: process_obj_unregistered reads_marker_name_def)
qed

text \<open>On the scene as the add-on registers it, Cube with its child empty Anchor raises
  and the run ends with no origin moved and nothing exported. With \<open>selected_empty\<close>
  defined as Anchor, the cursor and the origin of Cube go to (5, 5, 5).\<close>

theorem custom_anchor_lookup_witness:
  "selected_empty (scene cube_custom_doc) = None
   \<and> otype (objs cube_custom_doc ''Cube'') = ''MESH''
   \<and> children cube_custom_doc ''Cube'' = [''Anchor'']
   \<and> otype (objs cube_custom_doc ''Anchor'') = ''EMPTY''
   \<and> process_obj demo_host ''Cube'' cube_custom_doc
        = (Inl (AttributeError ''selected_empty''), cube_custom_doc)
   \<and> fst (execute demo_host cube_custom_doc) = Inl (AttributeError ''selected_empty'')
   \<and> calls (snd (execute demo_host cube_custom_doc))
        = [(''wm.save_as_mainfile'', [(''filepath'', PStr ''game.blend'')]),
           (''view3d.snap_cursor_to_center'', [])]
   \<and> selected_empty (scene cube_marker_doc) = Some ''Anchor''
   \<and> fst (process_obj demo_host ''Cube'' cube_marker_doc) = Inr ()
   \<and> cursor_location (snd (process_obj demo_host ''Cube'' cube_marker_doc)) = (5, 5, 5)
   \<and> translation (matrix_world (objs (snd (process_obj demo_host ''Cube'' cube_marker_doc)) ''Cube''))
        = (5, 5, 5)"
proof -
  have a: "selected_empty (scene cube_custom_doc) = None"
    "otype (objs cube_custom_doc ''Cube'') = ''MESH''"
    "children cube_custom_doc ''Cube'' = [''Anchor'']"
    "otype (objs cube_custom_doc ''Anchor'') = ''EMPTY''"
    by (simp_all add: demo_defs children_def select_set_def)
  then have ex: "list_ex (\<lambda>c. otype (objs cube_custom_doc c) = ''EMPTY'') (children cube_custom_doc ''Cube'')"
    by simp
  from custom_anchor_lookup [of cube_custom_doc "[]" "''Cube''" demo_host] a(1,2) ex
  have raised: "process_obj demo_host ''Cube'' cube_custom_doc
        = (Inl (AttributeError ''selected_empty''), cube_custom_doc)"
    by blast
  have run: "fst (execute demo_host cube_custom_doc) = Inl (AttributeError ''selected_empty'')"
    "calls (snd (execute demo_host cube_custom_doc))
        = [(''wm.save_as_mainfile'', [(''filepath'', PStr ''game.blend'')]),
           (''view3d.snap_cursor_to_center'', [])]"
    by (simp_all add: run_defs demo_defs Let_def)
  have b: "selected_empty (scene cube_marker_doc) = Some ''Anchor''"
    "fst (process_obj demo_host ''Cube'' cube_marker_doc) = Inr ()"
    "cursor_location (snd (process_obj demo_host ''Cube'' cube_marker_doc)) = (5, 5, 5)"
    "translation (matrix_world (objs (snd (process_obj demo_host ''Cube'' cube_marker_doc)) ''Cube''))
        = (5, 5, 5)"
    by (simp_all add: run_defs demo_defs Let_def)
  from a raised run b show ?thesis by simp
qed

section \<open>The two passes of set_origin_to_custom\<close>





































end
